theory Spec2Isabelle
  imports Main "HOL-Library.Word"
begin

unbundle bit_operations_syntax

chapter \<open>SDL_FontCache: glyph cache, packer, codec, text layout and drawing\<close>

text \<open>
  A shallow embedding of \<^verbatim>\<open>src/SDL_FontCache.cpp\<close>. Conventions:
  \<^item> \<^verbatim>\<open>Uint32\<close> codepoints are \<open>32 word\<close>, characters are \<open>8 word\<close>;
  \<^item> a \<^verbatim>\<open>char*\<close> is the list of the bytes readable from the pointer on (for a C
    string: its characters and the terminating 0); a null pointer is \<open>None\<close>;
  \<^item> a result \<open>None\<close> of a function that reads memory means that the code read past the
    last byte of that list, which C leaves undefined;
  \<^item> C \<^verbatim>\<open>int\<close>, \<^verbatim>\<open>Uint16\<close> and \<^verbatim>\<open>Sint16\<close> values are integers, with the conversion
    written out wherever the code stores into the narrower type.
\<close>

section \<open>Machine integers\<close>

type_synonym byte = "8 word"
type_synonym Uint32 = "32 word"

definition u16 :: "int \<Rightarrow> int" where
  "u16 i = i mod 65536"

definition s16 :: "int \<Rightarrow> int" where
  "s16 i = (i + 32768) mod 65536 - 32768"

definition u32 :: "int \<Rightarrow> int" where
  "u32 i = i mod 4294967296"

section \<open>Codepoint codec\<close>

text \<open>\<open>rd str i\<close> is the read \<^verbatim>\<open>*(str+i)\<close>; \<open>poke buf bs\<close> stores \<open>bs\<close> at \<^verbatim>\<open>buf[0..]\<close>.\<close>

definition rd :: "byte list \<Rightarrow> nat \<Rightarrow> byte option" where
  "rd str i = (if i < length str then Some (str ! i) else None)"

definition poke :: "byte list \<Rightarrow> byte list \<Rightarrow> byte list" where
  "poke buf bs = bs @ drop (length bs) buf"

text \<open>
  \<^verbatim>\<open>void FC_GetUTF8FromCodepoint(char* result, Uint32 codepoint)\<close>: the value returned
  is the memory at \<^verbatim>\<open>result\<close> after the call (\<open>None\<close> for a null \<^verbatim>\<open>result\<close>, which the
  code leaves alone).
\<close>

definition FC_GetUTF8FromCodepoint :: "byte list option \<Rightarrow> Uint32 \<Rightarrow> byte list option" where
  "FC_GetUTF8FromCodepoint result codepoint =
     (case result of
        None \<Rightarrow> None
      | Some buf \<Rightarrow>
          (let a = (ucast (drop_bit 24 codepoint AND 0xFF) :: byte);
               b = (ucast (drop_bit 16 codepoint AND 0xFF) :: byte);
               c = (ucast (drop_bit 8 codepoint AND 0xFF) :: byte);
               d = (ucast (codepoint AND 0xFF) :: byte)
           in Some (if a = 0 then
                      (if b = 0 then
                         (if c = 0 then poke buf [d, 0]
                          else poke buf [c, d, 0])
                       else poke buf [b, c, d, 0])
                    else poke buf [a, b, c, d, 0])))"

text \<open>
  The body of \<^verbatim>\<open>FC_GetCodepointFromUTF8\<close> after its null checks, on the memory \<open>str\<close>
  that \<^verbatim>\<open>*c\<close> points to. It returns the codepoint and the new value of \<^verbatim>\<open>*c\<close>.
\<close>

definition decode_at :: "byte list \<Rightarrow> byte \<Rightarrow> (Uint32 \<times> byte list) option" where
  "decode_at str advance_pointer =
     (case rd str 0 of
        None \<Rightarrow> None
      | Some b0 \<Rightarrow>
          if b0 \<le> 0x7F then Some (ucast b0, str)
          else if b0 < 0xE0 then
            (case rd str 1 of
               None \<Rightarrow> None
             | Some b1 \<Rightarrow>
                 Some (push_bit 8 (ucast b0) OR ucast b1,
                       if advance_pointer \<noteq> 0 then drop 1 str else str))
          else if b0 < 0xF0 then
            (case (rd str 1, rd str 2) of
               (Some b1, Some b2) \<Rightarrow>
                 Some (push_bit 16 (ucast b0) OR push_bit 8 (ucast b1) OR ucast b2,
                       if advance_pointer \<noteq> 0 then drop 2 str else str)
             | _ \<Rightarrow> None)
          else
            (case (rd str 1, rd str 2, rd str 3) of
               (Some b1, Some b2, Some b3) \<Rightarrow>
                 Some (push_bit 24 (ucast b0) OR push_bit 16 (ucast b1)
                         OR push_bit 8 (ucast b2) OR ucast b3,
                       if advance_pointer \<noteq> 0 then drop 3 str else str)
             | _ \<Rightarrow> None))"

text \<open>
  \<^verbatim>\<open>Uint32 FC_GetCodepointFromUTF8(const char** c, Uint8 advance_pointer)\<close>. The
  argument \<open>None\<close> is \<^verbatim>\<open>c == nullptr\<close>, \<open>Some None\<close> is \<^verbatim>\<open>*c == nullptr\<close>. The result pairs
  the returned codepoint with \<^verbatim>\<open>c\<close> as the call leaves it.
\<close>

definition FC_GetCodepointFromUTF8 ::
  "byte list option option \<Rightarrow> byte \<Rightarrow> (Uint32 \<times> byte list option option) option" where
  "FC_GetCodepointFromUTF8 c advance_pointer =
     (case c of
        None \<Rightarrow> Some (0, None)
      | Some None \<Rightarrow> Some (0, Some None)
      | Some (Some str) \<Rightarrow>
          map_option (\<lambda>(r, str'). (r, Some (Some str'))) (decode_at str advance_pointer))"

text \<open>
  The codepoints that the claim's ranges name, by the decoder's own classes of the
  leading byte: one byte up to \<open>0x7F\<close>; two bytes with a leading byte in \<open>0x80..0xDF\<close>
  (the Latin-1 supplement \<open>0xC2A0..0xC3BF\<close> lies here); three bytes with a leading byte in
  \<open>0xE0..0xEF\<close>; four bytes with a leading byte from \<open>0xF0\<close>.
\<close>

definition representable :: "Uint32 \<Rightarrow> bool" where
  "representable c \<longleftrightarrow>
     c \<le> 0x7F \<or> (0x8000 \<le> c \<and> c \<le> 0xDFFF) \<or> (0xE00000 \<le> c \<and> c \<le> 0xEFFFFF) \<or> 0xF0000000 \<le> c"

definition byte_a :: "Uint32 \<Rightarrow> byte" where
  "byte_a cp = ucast (drop_bit 24 cp AND 0xFF)"

definition byte_b :: "Uint32 \<Rightarrow> byte" where
  "byte_b cp = ucast (drop_bit 16 cp AND 0xFF)"

definition byte_c :: "Uint32 \<Rightarrow> byte" where
  "byte_c cp = ucast (drop_bit 8 cp AND 0xFF)"

definition byte_d :: "Uint32 \<Rightarrow> byte" where
  "byte_d cp = ucast (cp AND 0xFF)"

subsection \<open>The round trip\<close>

lemma and_255_take_bit: "x AND 0xFF = take_bit 8 (x::'a::len word)"
proof -
  have "(0xFF::'a word) = mask 8"
    by (simp add: mask_eq_exp_minus_1)
  then show ?thesis
    by (simp add: take_bit_eq_mask)
qed

lemma bytes_recompose:
  "push_bit 24 (ucast (byte_a cp)) OR push_bit 16 (ucast (byte_b cp))
     OR push_bit 8 (ucast (byte_c cp)) OR ucast (byte_d cp) = cp"
  unfolding byte_a_def byte_b_def byte_c_def byte_d_def and_255_take_bit
proof (rule bit_word_eqI)
  fix n :: nat
  assume "n < LENGTH(32)"
  then consider "n < 8" | "8 \<le> n \<and> n < 16" | "16 \<le> n \<and> n < 24" | "24 \<le> n \<and> n < 32"
    by fastforce
  then show "bit (push_bit 24 (ucast (ucast (take_bit 8 (drop_bit 24 cp)) :: byte))
                  OR push_bit 16 (ucast (ucast (take_bit 8 (drop_bit 16 cp)) :: byte))
                  OR push_bit 8 (ucast (ucast (take_bit 8 (drop_bit 8 cp)) :: byte))
                  OR ucast (ucast (take_bit 8 cp) :: byte) :: Uint32) n = bit cp n"
    by cases (auto simp add: bit_simps)
qed

lemma byte_unat:
  "unat (ucast (drop_bit k (cp::Uint32) AND 0xFF) :: byte) = unat cp div 2 ^ k mod 256"
proof -
  have "unat (ucast (drop_bit k cp AND 0xFF) :: byte) = take_bit 8 (drop_bit k (unat cp))"
    by (simp add: and_255_take_bit unsigned_ucast_eq unat_drop_bit_eq unsigned_take_bit_eq)
  then show ?thesis
    by (simp add: take_bit_eq_mod drop_bit_eq_div)
qed

lemma unat_bytes:
  "unat (byte_a cp) = unat cp div 2 ^ 24 mod 256"
  "unat (byte_b cp) = unat cp div 2 ^ 16 mod 256"
  "unat (byte_c cp) = unat cp div 2 ^ 8 mod 256"
  "unat (byte_d cp) = unat cp mod 256"
  using byte_unat [of 24 cp] byte_unat [of 16 cp] byte_unat [of 8 cp] byte_unat [of 0 cp]
  by (simp_all add: byte_a_def byte_b_def byte_c_def byte_d_def)

lemma encode_bytes:
  "FC_GetUTF8FromCodepoint (Some buf) cp =
     Some (if byte_a cp = 0 then
             (if byte_b cp = 0 then
                (if byte_c cp = 0 then poke buf [byte_d cp, 0]
                 else poke buf [byte_c cp, byte_d cp, 0])
              else poke buf [byte_b cp, byte_c cp, byte_d cp, 0])
           else poke buf [byte_a cp, byte_b cp, byte_c cp, byte_d cp, 0])"
  by (simp add: FC_GetUTF8FromCodepoint_def Let_def byte_a_def byte_b_def byte_c_def byte_d_def)

lemma rd_poke: "i < length bs \<Longrightarrow> rd (poke buf bs) i = Some (bs ! i)"
  by (simp add: rd_def poke_def nth_append)

lemma roundtrip_four:
  assumes "0xF0 \<le> byte_a cp"
  shows "map_option fst (FC_GetCodepointFromUTF8 (Some (FC_GetUTF8FromCodepoint (Some buf) cp)) adv)
           = Some cp"
proof -
  from assms have nz: "byte_a cp \<noteq> 0"
    by auto
  from assms have hi: "\<not> byte_a cp \<le> 0x7F" "\<not> byte_a cp < 0xE0" "\<not> byte_a cp < 0xF0"
    by (auto simp: word_le_nat_alt word_less_nat_alt)
  show ?thesis
    using nz hi bytes_recompose [of cp]
    by (simp add: FC_GetCodepointFromUTF8_def encode_bytes decode_at_def rd_poke)
qed

lemma roundtrip_three:
  assumes "byte_a cp = 0" "0xE0 \<le> byte_b cp" "byte_b cp < 0xF0"
  shows "map_option fst (FC_GetCodepointFromUTF8 (Some (FC_GetUTF8FromCodepoint (Some buf) cp)) adv)
           = Some cp"
proof -
  from assms have nz: "byte_b cp \<noteq> 0"
    by auto
  from assms have hi: "\<not> byte_b cp \<le> 0x7F" "\<not> byte_b cp < 0xE0"
    by (auto simp: word_le_nat_alt word_less_nat_alt)
  show ?thesis
    using nz hi assms bytes_recompose [of cp]
    by (simp add: FC_GetCodepointFromUTF8_def encode_bytes decode_at_def rd_poke)
qed

lemma roundtrip_two:
  assumes "byte_a cp = 0" "byte_b cp = 0" "0x80 \<le> byte_c cp" "byte_c cp < 0xE0"
  shows "map_option fst (FC_GetCodepointFromUTF8 (Some (FC_GetUTF8FromCodepoint (Some buf) cp)) adv)
           = Some cp"
proof -
  from assms have nz: "byte_c cp \<noteq> 0"
    by auto
  from assms have hi: "\<not> byte_c cp \<le> 0x7F"
    by (auto simp: word_le_nat_alt word_less_nat_alt)
  show ?thesis
    using nz hi assms bytes_recompose [of cp]
    by (simp add: FC_GetCodepointFromUTF8_def encode_bytes decode_at_def rd_poke)
qed

lemma roundtrip_one:
  assumes "byte_a cp = 0" "byte_b cp = 0" "byte_c cp = 0" "byte_d cp \<le> 0x7F"
  shows "map_option fst (FC_GetCodepointFromUTF8 (Some (FC_GetUTF8FromCodepoint (Some buf) cp)) adv)
           = Some cp"
  using assms bytes_recompose [of cp]
  by (simp add: FC_GetCodepointFromUTF8_def encode_bytes decode_at_def rd_poke)

lemma range_one:
  "c \<le> 0x7F \<Longrightarrow> byte_a c = 0 \<and> byte_b c = 0 \<and> byte_c c = 0 \<and> byte_d c \<le> 0x7F"
  by (simp add: word_le_nat_alt unat_bytes flip: unat_eq_0)

lemma range_two:
  "0x8000 \<le> c \<Longrightarrow> c \<le> 0xDFFF \<Longrightarrow>
     byte_a c = 0 \<and> byte_b c = 0 \<and> 0x80 \<le> byte_c c \<and> byte_c c < 0xE0"
  apply (simp add: word_le_nat_alt word_less_nat_alt unat_bytes flip: unat_eq_0)
  apply arith
  done

lemma range_three:
  "0xE00000 \<le> c \<Longrightarrow> c \<le> 0xEFFFFF \<Longrightarrow> byte_a c = 0 \<and> 0xE0 \<le> byte_b c \<and> byte_b c < 0xF0"
  apply (simp add: word_le_nat_alt word_less_nat_alt unat_bytes flip: unat_eq_0)
  apply arith
  done

lemma range_four: "0xF0000000 \<le> c \<Longrightarrow> 0xF0 \<le> byte_a c"
  apply (simp add: word_le_nat_alt word_less_nat_alt unat_bytes flip: unat_eq_0)
  using unsigned_less [of c, where 'a = nat]
  apply simp
  done

text \<open>
  Claim C2. For every codepoint of the ASCII range, of the two-byte range (which holds the
  Latin-1 supplement) and of the three- and four-byte ranges, decoding what
  \<^verbatim>\<open>FC_GetUTF8FromCodepoint\<close> wrote gives the codepoint back, whatever the buffer held
  before and whatever the advance flag is. The bytes \<open>E2 82 AC\<close> decode to \<open>0x00E282AC\<close>,
  and \<open>0x00E282AC\<close> encodes to these three bytes and a terminating 0.
\<close>

theorem codec_roundtrip:
  "(representable c \<longrightarrow>
      map_option fst
        (FC_GetCodepointFromUTF8 (Some (FC_GetUTF8FromCodepoint (Some buf) c)) adv) = Some c)
   \<and> map_option fst (FC_GetCodepointFromUTF8 (Some (Some [0xE2, 0x82, 0xAC, 0])) adv)
       = Some 0x00E282AC
   \<and> FC_GetUTF8FromCodepoint (Some []) 0x00E282AC = Some [0xE2, 0x82, 0xAC, 0]"
proof (intro conjI impI)
  assume "representable c"
  then consider "c \<le> 0x7F" | "0x8000 \<le> c \<and> c \<le> 0xDFFF"
    | "0xE00000 \<le> c \<and> c \<le> 0xEFFFFF" | "0xF0000000 \<le> c"
    unfolding representable_def by blast
  then show "map_option fst
      (FC_GetCodepointFromUTF8 (Some (FC_GetUTF8FromCodepoint (Some buf) c)) adv) = Some c"
  proof cases
    case 1
    then show ?thesis using range_one [of c] roundtrip_one [of c] by blast
  next
    case 2
    then show ?thesis using range_two [of c] roundtrip_two [of c] by blast
  next
    case 3
    then show ?thesis using range_three [of c] roundtrip_three [of c] by blast
  next
    case 4
    then show ?thesis using range_four [of c] roundtrip_four [of c] by blast
  qed
next
  show "map_option fst (FC_GetCodepointFromUTF8 (Some (Some [0xE2, 0x82, 0xAC, 0])) adv)
          = Some 0x00E282AC"
    by (simp add: FC_GetCodepointFromUTF8_def decode_at_def rd_def)
next
  show "FC_GetUTF8FromCodepoint (Some []) 0x00E282AC = Some [0xE2, 0x82, 0xAC, 0]"
    by (simp add: FC_GetUTF8FromCodepoint_def poke_def)
qed

theorem codec_roundtrip_witness:
  "representable 0xC3A9
   \<and> map_option fst
       (FC_GetCodepointFromUTF8 (Some (FC_GetUTF8FromCodepoint (Some [0, 0, 0, 0, 0]) 0xC3A9)) 1)
       = Some 0xC3A9
   \<and> FC_GetUTF8FromCodepoint (Some [0, 0, 0, 0, 0]) 0xC3A9 = Some [0xC3, 0xA9, 0, 0, 0]"
proof -
  have r: "representable 0xC3A9"
    by (simp add: representable_def)
  have e: "FC_GetUTF8FromCodepoint (Some [0, 0, 0, 0, 0]) 0xC3A9 = Some [0xC3, 0xA9, 0, 0, 0]"
    by (simp add: FC_GetUTF8FromCodepoint_def poke_def)
  from r e show ?thesis
    using codec_roundtrip [of "0xC3A9" "[0, 0, 0, 0, 0]" 1] by blast
qed

text \<open>
  Claim C10. Called with a null \<^verbatim>\<open>c\<close>, or with \<^verbatim>\<open>c\<close> pointing to a null pointer,
  \<^verbatim>\<open>FC_GetCodepointFromUTF8\<close> returns codepoint 0 and leaves the pointer as it was,
  for every value of the advance flag.
\<close>

theorem decode_null_pointer:
  "FC_GetCodepointFromUTF8 None advance_pointer = Some (0, None)
   \<and> FC_GetCodepointFromUTF8 (Some None) advance_pointer = Some (0, Some None)"
  by (simp add: FC_GetCodepointFromUTF8_def)

section \<open>Glyph data and the glyph map\<close>

text \<open>
  \<^verbatim>\<open>SDL_Rect\<close> is SDL's rectangle of four \<^verbatim>\<open>int\<close>s and \<^verbatim>\<open>FC_GlyphData\<close> (declared in the
  header \<^verbatim>\<open>SDL_FontCache.h\<close>) pairs one with the index of a cache level, as
  \<^verbatim>\<open>FC_MakeGlyphData\<close> fills them. Arithmetic on \<^verbatim>\<open>int\<close> is arithmetic on integers
  here: a signed overflow has no defined result in C.
\<close>

record SDL_Rect =
  rect_x :: int
  rect_y :: int
  rect_w :: int
  rect_h :: int

record FC_GlyphData =
  rect :: SDL_Rect
  cache_level :: int

text \<open>The parameters are \<^verbatim>\<open>int, Sint16, Sint16, Uint16, Uint16\<close>: the arguments are converted.\<close>

definition FC_MakeGlyphData :: "int \<Rightarrow> int \<Rightarrow> int \<Rightarrow> int \<Rightarrow> int \<Rightarrow> FC_GlyphData" where
  "FC_MakeGlyphData cache_level' x y w h =
     \<lparr>rect = \<lparr>rect_x = s16 x, rect_y = s16 y, rect_w = u16 w, rect_h = u16 h\<rparr>,
      cache_level = cache_level'\<rparr>"

definition FC_DEFAULT_NUM_BUCKETS :: int where
  "FC_DEFAULT_NUM_BUCKETS = 300"

text \<open>
  A bucket is its chain of nodes, head first; a node is its key and its value. The array
  \<^verbatim>\<open>buckets\<close> is the list of the chains.
\<close>

type_synonym FC_MapNode = "Uint32 \<times> FC_GlyphData"

record FC_Map =
  num_buckets :: int
  buckets :: "FC_MapNode list list"

definition FC_MapCreate :: "int \<Rightarrow> FC_Map option" where
  "FC_MapCreate num_buckets' =
     Some \<lparr>num_buckets = num_buckets', buckets = replicate (nat num_buckets') []\<rparr>"

text \<open>
  \<^verbatim>\<open>index = codepoint % map->num_buckets\<close>, computed in \<^verbatim>\<open>unsigned int\<close>. \<open>None\<close>: the
  division by zero, or an index outside the array.
\<close>

definition bucket_index :: "FC_Map \<Rightarrow> Uint32 \<Rightarrow> nat option" where
  "bucket_index m codepoint =
     (if u32 (num_buckets m) = 0 then None
      else let index = unat codepoint mod nat (u32 (num_buckets m))
           in if index < length (buckets m) then Some index else None)"

text \<open>The loop of \<^verbatim>\<open>FC_MapInsert\<close>: walk to the node whose \<^verbatim>\<open>next\<close> is null, hang the new node there.\<close>

fun chain_append :: "FC_MapNode list \<Rightarrow> FC_MapNode \<Rightarrow> FC_MapNode list" where
  "chain_append [] new = [new]"
| "chain_append (node # next) new =
     (if next = [] then [node, new] else node # chain_append next new)"

text \<open>
  The result pairs the map after the call with the returned pointer (\<open>Some\<close> of the
  stored value, \<open>None\<close> for \<^verbatim>\<open>nullptr\<close>).
\<close>

definition FC_MapInsert ::
  "FC_Map option \<Rightarrow> Uint32 \<Rightarrow> FC_GlyphData \<Rightarrow> (FC_Map option \<times> FC_GlyphData option) option" where
  "FC_MapInsert map' codepoint glyph =
     (case map' of
        None \<Rightarrow> Some (None, None)
      | Some m \<Rightarrow>
          (case bucket_index m codepoint of
             None \<Rightarrow> None
           | Some index \<Rightarrow>
               if buckets m ! index = [] then
                 Some (Some (m\<lparr>buckets := (buckets m)[index := [(codepoint, glyph)]]\<rparr>), Some glyph)
               else
                 Some (Some (m\<lparr>buckets :=
                         (buckets m)[index := chain_append (buckets m ! index) (codepoint, glyph)]\<rparr>),
                       Some glyph)))"

fun chain_find :: "FC_MapNode list \<Rightarrow> Uint32 \<Rightarrow> FC_GlyphData option" where
  "chain_find [] codepoint = None"
| "chain_find (node # next) codepoint =
     (if fst node = codepoint then Some (snd node) else chain_find next codepoint)"

definition FC_MapFind :: "FC_Map option \<Rightarrow> Uint32 \<Rightarrow> FC_GlyphData option option" where
  "FC_MapFind map' codepoint =
     (case map' of
        None \<Rightarrow> Some None
      | Some m \<Rightarrow>
          (case bucket_index m codepoint of
             None \<Rightarrow> None
           | Some index \<Rightarrow> Some (chain_find (buckets m ! index) codepoint)))"

text \<open>A map as \<^verbatim>\<open>FC_MapCreate\<close> allocates it and \<^verbatim>\<open>FC_MapInsert\<close> keeps it.\<close>

definition map_ok :: "FC_Map \<Rightarrow> bool" where
  "map_ok m \<longleftrightarrow> 0 < num_buckets m \<and> num_buckets m < 4294967296
                 \<and> length (buckets m) = nat (num_buckets m)"

text \<open>A run of insertions, one after the other.\<close>

fun insert_all :: "FC_Map option \<Rightarrow> FC_MapNode list \<Rightarrow> FC_Map option option" where
  "insert_all m [] = Some m"
| "insert_all m (kg # rest) =
     (case FC_MapInsert m (fst kg) (snd kg) of
        None \<Rightarrow> None
      | Some (m', e) \<Rightarrow> insert_all m' rest)"

subsection \<open>Lookups after insertions\<close>

lemma chain_append_eq: "chain_append ch new = ch @ [new]"
  by (induction ch) auto

lemma chain_find_append:
  "chain_find (ch @ ch') k = (case chain_find ch k of Some e \<Rightarrow> Some e | None \<Rightarrow> chain_find ch' k)"
  by (induction ch) auto

lemma map_ok_MapCreate: "0 < n \<Longrightarrow> n < 4294967296 \<Longrightarrow> map_ok (the (FC_MapCreate n))"
  by (simp add: map_ok_def FC_MapCreate_def)

lemma bucket_index_Some:
  assumes "map_ok m"
  shows "bucket_index m k = Some (unat k mod nat (num_buckets m))"
    and "unat k mod nat (num_buckets m) < length (buckets m)"
  using assms by (auto simp: map_ok_def bucket_index_def u32_def Let_def)

lemma MapInsert_ok:
  assumes "map_ok m" and "bucket_index m k = Some i"
  shows "FC_MapInsert (Some m) k e =
           Some (Some (m\<lparr>buckets := (buckets m)[i := buckets m ! i @ [(k, e)]]\<rparr>), Some e)"
  using assms by (simp add: FC_MapInsert_def chain_append_eq)

lemma map_ok_buckets_update:
  "map_ok m \<Longrightarrow> map_ok (m\<lparr>buckets := (buckets m)[i := ch]\<rparr>)"
  by (simp add: map_ok_def)

lemma bucket_index_buckets_update:
  "bucket_index (m\<lparr>buckets := (buckets m)[i := ch]\<rparr>) k = bucket_index m k"
  by (simp add: bucket_index_def)

lemma MapFind_after_insert:
  assumes "map_ok m" and "bucket_index m k = Some i" and "bucket_index m k' = Some j"
  shows "FC_MapFind (Some (m\<lparr>buckets := (buckets m)[i := buckets m ! i @ [(k, e)]]\<rparr>)) k' =
           Some (case chain_find (buckets m ! j) k' of
                   Some e' \<Rightarrow> Some e'
                 | None \<Rightarrow> if k' = k then Some e else None)"
proof -
  from assms have len: "i < length (buckets m)" "j < length (buckets m)"
    using bucket_index_Some [of m k] bucket_index_Some [of m k'] by auto
  show ?thesis
  proof (cases "k' = k")
    case True
    with assms have "j = i" by simp
    with len True assms show ?thesis
      by (simp add: FC_MapFind_def bucket_index_buckets_update chain_find_append
               split: option.splits)
  next
    case False
    with len assms show ?thesis
      by (cases "j = i")
         (simp_all add: FC_MapFind_def bucket_index_buckets_update chain_find_append
               split: option.splits)
  qed
qed



section \<open>The font, its cache levels and the packer\<close>

text \<open>
  The two globals that the modelled functions read: \<^verbatim>\<open>fc_tab_width\<close> (an
  \<^verbatim>\<open>unsigned int\<close>, 4 unless \<^verbatim>\<open>FC_SetTabWidth\<close> changed it) and \<^verbatim>\<open>fc_buffer_size\<close>
  (1024 unless \<^verbatim>\<open>FC_SetBufferSize\<close> changed it). Every function takes them as its
  first argument.
\<close>

record FC_Globals =
  fc_tab_width :: int
  fc_buffer_size :: int

definition FC_CACHE_PADDING :: int where
  "FC_CACHE_PADDING = 1"

text \<open>
  What the model keeps of SDL and SDL_ttf, which are not part of the repository:
  \<^item> a texture is its size, which is all that \<^verbatim>\<open>SDL_QueryTexture\<close> is asked for;
  \<^item> a renderer is the number of textures it can still create: \<^verbatim>\<open>SDL_CreateTexture\<close>
    returns null on a null renderer and when nothing is left;
  \<^item> a \<^verbatim>\<open>TTF_Font\<close> is \<^verbatim>\<open>TTF_RenderUTF8_Blended\<close> on it: from the UTF-8 string to the
    width of the surface, or to \<open>None\<close> when it returns null.
  Pixels, colours and the renderer's target, clip and viewport are not modelled.
\<close>

record SDL_Texture =
  tex_w :: int
  tex_h :: int

record SDL_Renderer =
  tex_budget :: nat

type_synonym TTF_Font = "byte list \<Rightarrow> int option"

definition SDL_CreateTexture ::
  "SDL_Renderer option \<Rightarrow> int \<Rightarrow> int \<Rightarrow> SDL_Texture option \<times> SDL_Renderer option" where
  "SDL_CreateTexture r w h =
     (case r of
        None \<Rightarrow> (None, None)
      | Some ren \<Rightarrow>
          if tex_budget ren = 0 then (None, Some ren)
          else (Some \<lparr>tex_w = w, tex_h = h\<rparr>, Some (ren\<lparr>tex_budget := tex_budget ren - 1\<rparr>)))"

text \<open>
  An entry of the array \<^verbatim>\<open>glyph_cache\<close>: \<^verbatim>\<open>malloc\<close> leaves it \<open>Unset\<close> until a pointer
  (possibly null) is stored. Reading an unset entry, or one outside the array, is
  undefined: the result \<open>None\<close>.
\<close>

datatype cache_slot = Unset | Level "SDL_Texture option"

text \<open>
  \<^verbatim>\<open>struct FC_Font\<close>. The fields \<^verbatim>\<open>owns_ttf_source\<close>, \<^verbatim>\<open>filter\<close>, \<^verbatim>\<open>default_color\<close> and
  \<^verbatim>\<open>loading_string\<close> are left out: no modelled function reads them. The list
  \<open>glyph_cache\<close> is the allocated array, \<open>glyph_cache_size\<close> entries long.
\<close>

record FC_Font =
  renderer :: "SDL_Renderer option"
  ttf_source :: "TTF_Font option"
  height :: int
  maxWidth :: int
  baseline :: int
  ascent :: int
  descent :: int
  lineSpacing :: int
  letterSpacing :: int
  glyphs :: "FC_Map option"
  last_glyph :: FC_GlyphData
  glyph_cache_size :: int
  glyph_cache_count :: int
  glyph_cache :: "cache_slot list"

definition FC_Init :: "FC_Font option \<Rightarrow> FC_Font option" where
  "FC_Init font' =
     (case font' of
        None \<Rightarrow> None
      | Some font \<Rightarrow>
          Some (font\<lparr>renderer := None, ttf_source := None, height := 0, maxWidth := 0,
                     baseline := 0, ascent := 0, descent := 0, lineSpacing := 0,
                     letterSpacing := 0,
                     last_glyph := \<lparr>rect = \<lparr>rect_x = FC_CACHE_PADDING, rect_y = FC_CACHE_PADDING,
                                             rect_w = 0, rect_h = 0\<rparr>,
                                     cache_level = 0\<rparr>,
                     glyphs := FC_MapCreate FC_DEFAULT_NUM_BUCKETS,
                     glyph_cache_size := 3, glyph_cache_count := 0,
                     glyph_cache := replicate 3 Unset\<rparr>))"

text \<open>\<^verbatim>\<open>FC_CreateFont\<close>: \<^verbatim>\<open>malloc\<close>, \<^verbatim>\<open>memset\<close> to 0, \<^verbatim>\<open>FC_Init\<close>.\<close>

definition zeroed_font :: FC_Font where
  "zeroed_font =
     \<lparr>renderer = None, ttf_source = None, height = 0, maxWidth = 0, baseline = 0, ascent = 0,
      descent = 0, lineSpacing = 0, letterSpacing = 0, glyphs = None,
      last_glyph = \<lparr>rect = \<lparr>rect_x = 0, rect_y = 0, rect_w = 0, rect_h = 0\<rparr>, cache_level = 0\<rparr>,
      glyph_cache_size = 0, glyph_cache_count = 0, glyph_cache = []\<rparr>"

definition FC_CreateFont :: "FC_Font option" where
  "FC_CreateFont = FC_Init (Some zeroed_font)"

definition FC_GetGlyphCacheLevel :: "FC_Font option \<Rightarrow> int \<Rightarrow> SDL_Texture option option" where
  "FC_GetGlyphCacheLevel font' cache_level' =
     (case font' of
        None \<Rightarrow> Some None
      | Some font \<Rightarrow>
          if cache_level' < 0 \<or> cache_level' > glyph_cache_count font then Some None
          else if nat cache_level' < length (glyph_cache font) then
            (case glyph_cache font ! nat cache_level' of
               Unset \<Rightarrow> None
             | Level t \<Rightarrow> Some t)
          else None)"

text \<open>The result pairs the font after the call with the returned \<^verbatim>\<open>Uint8\<close>.\<close>

definition FC_SetGlyphCacheLevel ::
  "FC_Font option \<Rightarrow> int \<Rightarrow> SDL_Texture option \<Rightarrow> (FC_Font option \<times> int) option" where
  "FC_SetGlyphCacheLevel font' cache_level' cache_texture =
     (case font' of
        None \<Rightarrow> Some (None, 0)
      | Some font \<Rightarrow>
          if cache_level' < 0 then Some (font', 0)
          else if cache_level' > glyph_cache_count font + 1 then Some (font', 0)
          else
            (case (if cache_level' = glyph_cache_count font then
                     (let font1 = font\<lparr>glyph_cache_count := glyph_cache_count font + 1\<rparr>
                      in if glyph_cache_count font1 > glyph_cache_size font1 then
                           (if nat (glyph_cache_size font1) \<le> length (glyph_cache font1) then
                              Some (font1\<lparr>glyph_cache_size := glyph_cache_count font1,
                                     glyph_cache :=
                                       take (nat (glyph_cache_size font1)) (glyph_cache font1)
                                       @ replicate (nat (glyph_cache_count font1)
                                                     - nat (glyph_cache_size font1)) Unset\<rparr>)
                            else None)
                         else Some font1)
                   else Some font) of
               None \<Rightarrow> None
             | Some font2 \<Rightarrow>
                 if nat cache_level' < length (glyph_cache font2) then
                   Some (Some (font2\<lparr>glyph_cache :=
                                  (glyph_cache font2)[nat cache_level' := Level cache_texture]\<rparr>), 1)
                 else None))"

definition FC_GrowGlyphCache :: "FC_Font option \<Rightarrow> (FC_Font option \<times> int) option" where
  "FC_GrowGlyphCache font' =
     (case font' of
        None \<Rightarrow> Some (None, 0)
      | Some font \<Rightarrow>
          (case SDL_CreateTexture (renderer font) (height font * 12) (height font * 12) of
             (None, r) \<Rightarrow> Some (Some (font\<lparr>renderer := r\<rparr>), 0)
           | (Some new_level, r) \<Rightarrow>
               (case FC_SetGlyphCacheLevel (Some (font\<lparr>renderer := r\<rparr>))
                       (glyph_cache_count font) (Some new_level) of
                  None \<Rightarrow> None
                | Some (font2, ok) \<Rightarrow> if ok = 0 then Some (font2, 0) else Some (font2, 1))))"

text \<open>
  The surface is its width, or \<open>None\<close> for a null surface. What the call draws is not
  modelled; its read of the cache level is.
\<close>

definition FC_AddGlyphToCache :: "FC_Font option \<Rightarrow> int option \<Rightarrow> int option" where
  "FC_AddGlyphToCache font' glyph_surface =
     (case (font', glyph_surface) of
        (Some font, Some surf_w) \<Rightarrow>
          (case FC_GetGlyphCacheLevel (Some font) (cache_level (last_glyph font)) of
             None \<Rightarrow> None
           | Some None \<Rightarrow> Some 0
           | Some (Some dest) \<Rightarrow> Some 1)
      | _ \<Rightarrow> Some 0)"

text \<open>
  \<^verbatim>\<open>FC_PackGlyphData\<close> from \<^verbatim>\<open>// Move to next space\<close> on: the cursor moves right of the
  last glyph, takes the new width, and the rectangle goes into the map.
\<close>

definition pack_place ::
  "FC_Font \<Rightarrow> Uint32 \<Rightarrow> int \<Rightarrow> (FC_Font \<times> FC_GlyphData option) option" where
  "pack_place font codepoint width =
     (let lg = last_glyph font;
          r = rect lg;
          r' = r\<lparr>rect_x := rect_x r + (rect_w r + 1 + FC_CACHE_PADDING), rect_w := width\<rparr>
      in case FC_MapInsert (glyphs font) codepoint
                (FC_MakeGlyphData (cache_level lg) (rect_x r') (rect_y r') (rect_w r') (rect_h r')) of
           None \<Rightarrow> None
         | Some (glyphs', e) \<Rightarrow> Some (font\<lparr>glyphs := glyphs', last_glyph := lg\<lparr>rect := r'\<rparr>\<rparr>, e))"

text \<open>
  \<^verbatim>\<open>FC_PackGlyphData\<close> after its block for TAB, on the \<^verbatim>\<open>Uint16\<close> values of \<^verbatim>\<open>width\<close>,
  \<^verbatim>\<open>maxWidth\<close> and \<^verbatim>\<open>maxHeight\<close>. The result pairs the font after the call with the
  returned pointer.
\<close>

definition pack_body ::
  "FC_Font \<Rightarrow> Uint32 \<Rightarrow> int \<Rightarrow> int \<Rightarrow> int \<Rightarrow> (FC_Font \<times> FC_GlyphData option) option" where
  "pack_body font codepoint width maxWidth' maxHeight =
     (let height' = u16 (height font + FC_CACHE_PADDING);
          lg = last_glyph font;
          r = rect lg
      in if rect_x r + rect_w r + width \<ge> maxWidth' - FC_CACHE_PADDING then
           (if rect_y r + height' + height' \<ge> maxHeight - FC_CACHE_PADDING then
              Some (font\<lparr>last_glyph :=
                            \<lparr>rect = r\<lparr>rect_x := FC_CACHE_PADDING, rect_y := FC_CACHE_PADDING,
                                      rect_w := 0\<rparr>,
                             cache_level = glyph_cache_count font\<rparr>\<rparr>,
                    None)
            else
              pack_place
                (font\<lparr>last_glyph :=
                         lg\<lparr>rect := r\<lparr>rect_x := FC_CACHE_PADDING, rect_y := rect_y r + height',
                                        rect_w := 0\<rparr>\<rparr>\<rparr>)
                codepoint width)
         else pack_place font codepoint width)"

text \<open>
  \<^verbatim>\<open>FC_PackGlyphData\<close> and \<^verbatim>\<open>FC_GetGlyphData\<close> call each other: the packer asks for the
  glyph of the space when it packs a TAB, and that inner call packs a space, never a TAB.
  So \<open>get_glyph_with\<close> is \<^verbatim>\<open>FC_GetGlyphData\<close> with the packer it calls as a parameter:
  the inner call gets the packer without the TAB block, the outer one the whole packer.
  The result holds the font after the call, the returned \<^verbatim>\<open>Uint8\<close> and what was written
  to \<^verbatim>\<open>*result\<close> (\<open>None\<close>: nothing).
\<close>

type_synonym packer =
  "FC_Font \<Rightarrow> Uint32 \<Rightarrow> int \<Rightarrow> int \<Rightarrow> int \<Rightarrow> (FC_Font \<times> FC_GlyphData option) option"

definition c_str :: "byte list \<Rightarrow> byte list" where
  "c_str buf = takeWhile (\<lambda>b. b \<noteq> 0) buf"

text \<open>
  The two statements \<^verbatim>\<open>FC_GetUTF8FromCodepoint(buff, codepoint)\<close> and
  \<^verbatim>\<open>TTF_RenderUTF8_Blended(font->ttf_source, buff, white)\<close> on the local \<^verbatim>\<open>char buff[5]\<close>:
  the rasterizer reads the string up to the first 0, all of which the encoder wrote.
\<close>

definition render_codepoint :: "TTF_Font \<Rightarrow> Uint32 \<Rightarrow> int option" where
  "render_codepoint ttf codepoint =
     Option.bind (FC_GetUTF8FromCodepoint (Some (replicate 5 0)) codepoint)
       (\<lambda>buff. ttf (c_str buff))"

definition glyph_added ::
  "FC_Font \<Rightarrow> int \<Rightarrow> FC_GlyphData \<Rightarrow> (FC_Font \<times> int \<times> FC_GlyphData option) option" where
  "glyph_added font surf_w e =
     (case FC_AddGlyphToCache (Some font) (Some surf_w) of
        None \<Rightarrow> None
      | Some added \<Rightarrow> Some (font, 1, Some e))"

definition get_glyph_with ::
  "packer \<Rightarrow> FC_Font option \<Rightarrow> Uint32 \<Rightarrow> (FC_Font \<times> int \<times> FC_GlyphData option) option" where
  "get_glyph_with pack font' codepoint =
     (case font' of
        None \<Rightarrow> None
      | Some font \<Rightarrow>
          (case FC_MapFind (glyphs font) codepoint of
             None \<Rightarrow> None
           | Some (Some e) \<Rightarrow> Some (font, 1, Some e)
           | Some None \<Rightarrow>
               (case ttf_source font of
                  None \<Rightarrow> Some (font, 0, None)
                | Some ttf \<Rightarrow>
                    (case FC_GetGlyphCacheLevel (Some font) (cache_level (last_glyph font)) of
                       None \<Rightarrow> None
                     | Some None \<Rightarrow> Some (font, 0, None)
                     | Some (Some cache_image) \<Rightarrow>
                         (case render_codepoint ttf codepoint of
                            None \<Rightarrow> Some (font, 0, None)
                          | Some surf_w \<Rightarrow>
                              (case pack font codepoint surf_w
                                      (tex_w cache_image) (tex_h cache_image) of
                                 None \<Rightarrow> None
                               | Some (font1, Some e) \<Rightarrow> glyph_added font1 surf_w e
                               | Some (font1, None) \<Rightarrow>
                                   (case FC_GrowGlyphCache (Some font1) of
                                      Some (Some font2, grown) \<Rightarrow>
                                        (case pack font2 codepoint surf_w
                                                (tex_w cache_image) (tex_h cache_image) of
                                           None \<Rightarrow> None
                                         | Some (font3, None) \<Rightarrow> Some (font3, 0, None)
                                         | Some (font3, Some e) \<Rightarrow> glyph_added font3 surf_w e)
                                    | _ \<Rightarrow> None)))))))"

text \<open>
  \<^verbatim>\<open>FC_PackGlyphData\<close>. In the TAB block \<^verbatim>\<open>spaceGlyph\<close> is not initialised, so when
  the inner call writes nothing its read is undefined (\<open>None\<close>); the product is taken in
  \<^verbatim>\<open>unsigned int\<close> and stored into the \<^verbatim>\<open>Uint16\<close> \<^verbatim>\<open>width\<close>.
\<close>

definition FC_PackGlyphData ::
  "FC_Globals \<Rightarrow> FC_Font \<Rightarrow> Uint32 \<Rightarrow> int \<Rightarrow> int \<Rightarrow> int
     \<Rightarrow> (FC_Font \<times> FC_GlyphData option) option" where
  "FC_PackGlyphData g font codepoint width maxWidth' maxHeight =
     (if codepoint = 9 then
        (case get_glyph_with (\<lambda>f c w mw mh. pack_body f c (u16 w) (u16 mw) (u16 mh))
                (Some font) 32 of
           None \<Rightarrow> None
         | Some (font1, ok, None) \<Rightarrow> None
         | Some (font1, ok, Some spaceGlyph) \<Rightarrow>
             pack_body font1 codepoint
               (u16 (u32 (fc_tab_width g * u32 (rect_w (rect spaceGlyph)))))
               (u16 maxWidth') (u16 maxHeight))
      else pack_body font codepoint (u16 width) (u16 maxWidth') (u16 maxHeight))"

definition FC_GetGlyphData ::
  "FC_Globals \<Rightarrow> FC_Font option \<Rightarrow> Uint32 \<Rightarrow> (FC_Font \<times> int \<times> FC_GlyphData option) option" where
  "FC_GetGlyphData g font' codepoint = get_glyph_with (FC_PackGlyphData g) font' codepoint"


definition FC_GetNumCacheLevels :: "FC_Font option \<Rightarrow> int option" where
  "FC_GetNumCacheLevels font' = map_option glyph_cache_count font'"

subsection \<open>Found glyphs\<close>

lemma get_glyph_with_found:
  "FC_MapFind (glyphs font) cp = Some (Some e) \<Longrightarrow>
     get_glyph_with pack (Some font) cp = Some (font, 1, Some e)"
  by (simp add: get_glyph_with_def)

lemma get_glyph_with_cong:
  assumes "\<And>f w mw mh. pack f cp w mw mh = pack' f cp w mw mh"
  shows "get_glyph_with pack font' cp = get_glyph_with pack' font' cp"
  unfolding get_glyph_with_def using assms
  by (simp cong: option.case_cong prod.case_cong)

text \<open>The inner call of the TAB block is \<^verbatim>\<open>FC_GetGlyphData\<close> at the space.\<close>

lemma GetGlyphData_space_inner:
  "get_glyph_with (\<lambda>f c w mw mh. pack_body f c (u16 w) (u16 mw) (u16 mh)) font' 32 =
     FC_GetGlyphData g font' 32"
  unfolding FC_GetGlyphData_def
  by (rule get_glyph_with_cong) (simp add: FC_PackGlyphData_def)



subsection \<open>Packing: level exhausted, and a glyph that fits in the row\<close>

text \<open>The globals as the program starts with them.\<close>

definition default_globals :: FC_Globals where
  "default_globals = \<lparr>fc_tab_width = 4, fc_buffer_size = 1024\<rparr>"

text \<open>
  The width that the packer places, in the cases where finding it leaves the font as it
  is: the \<^verbatim>\<open>Uint16\<close> value of the argument for a codepoint other than TAB, and
  \<^verbatim>\<open>fc_tab_width * spaceGlyph.rect.w\<close> for a TAB when the space is in the glyph map.
  For a TAB with no space in the map the packer first has the space rasterized and
  packed, which changes the font.
\<close>

definition placement_width :: "FC_Globals \<Rightarrow> FC_Font \<Rightarrow> Uint32 \<Rightarrow> int \<Rightarrow> int option" where
  "placement_width g font codepoint width =
     (if codepoint = 9 then
        (case FC_MapFind (glyphs font) 32 of
           Some (Some spaceGlyph) \<Rightarrow> Some (u16 (u32 (fc_tab_width g * u32 (rect_w (rect spaceGlyph)))))
         | _ \<Rightarrow> None)
      else Some (u16 width))"

text \<open>The cache array as \<^verbatim>\<open>FC_Init\<close> and \<^verbatim>\<open>FC_SetGlyphCacheLevel\<close> keep it.\<close>

definition cache_ok :: "FC_Font \<Rightarrow> bool" where
  "cache_ok font \<longleftrightarrow>
     0 \<le> glyph_cache_count font \<and> glyph_cache_count font \<le> glyph_cache_size font
     \<and> length (glyph_cache font) = nat (glyph_cache_size font)"

text \<open>
  Three calls of the packer in a row, for the codepoints of a, b and c, all of one width:
  the x coordinates of the rectangles that the calls return.
\<close>

definition pack_three :: "FC_Globals \<Rightarrow> FC_Font \<Rightarrow> int \<Rightarrow> int \<Rightarrow> int \<Rightarrow> int option list option" where
  "pack_three g font width maxWidth' maxHeight =
     Option.bind (FC_PackGlyphData g font 0x61 width maxWidth' maxHeight) (\<lambda>(font1, e1).
     Option.bind (FC_PackGlyphData g font1 0x62 width maxWidth' maxHeight) (\<lambda>(font2, e2).
     Option.bind (FC_PackGlyphData g font2 0x63 width maxWidth' maxHeight) (\<lambda>(font3, e3).
       Some (map (map_option (\<lambda>e. rect_x (rect e))) [e1, e2, e3]))))"

text \<open>
  Fonts for the examples. All have line height 20 and one cache level. In \<open>tab_font\<close>
  and \<open>full_font\<close> the level is 240 by 240 and the cursor stands at the end of its last
  row; in \<open>stuck_font\<close> the level is 240 by 40, too low for a second row, the glyph of
  a is 250 wide, and the renderer cannot create another texture.
\<close>

definition tab_font :: FC_Font where
  "tab_font =
     \<lparr>renderer = Some \<lparr>tex_budget = 8\<rparr>,
      ttf_source = Some (\<lambda>s. if s = [32] then Some 6 else None),
      height = 20, maxWidth = 0, baseline = 0, ascent = 0, descent = 0, lineSpacing = 0,
      letterSpacing = 0, glyphs = FC_MapCreate FC_DEFAULT_NUM_BUCKETS,
      last_glyph = \<lparr>rect = \<lparr>rect_x = 200, rect_y = 200, rect_w = 10, rect_h = 20\<rparr>, cache_level = 0\<rparr>,
      glyph_cache_size = 3, glyph_cache_count = 1,
      glyph_cache = [Level (Some \<lparr>tex_w = 240, tex_h = 240\<rparr>), Unset, Unset]\<rparr>"

definition full_font :: FC_Font where
  "full_font =
     \<lparr>renderer = Some \<lparr>tex_budget = 8\<rparr>,
      ttf_source = Some (\<lambda>s. if s = [0x61] then Some 40 else None),
      height = 20, maxWidth = 0, baseline = 0, ascent = 0, descent = 0, lineSpacing = 0,
      letterSpacing = 0, glyphs = FC_MapCreate FC_DEFAULT_NUM_BUCKETS,
      last_glyph = \<lparr>rect = \<lparr>rect_x = 200, rect_y = 200, rect_w = 10, rect_h = 20\<rparr>, cache_level = 0\<rparr>,
      glyph_cache_size = 3, glyph_cache_count = 1,
      glyph_cache = [Level (Some \<lparr>tex_w = 240, tex_h = 240\<rparr>), Unset, Unset]\<rparr>"

definition stuck_font :: FC_Font where
  "stuck_font =
     \<lparr>renderer = Some \<lparr>tex_budget = 0\<rparr>,
      ttf_source = Some (\<lambda>s. if s = [0x61] then Some 250 else None),
      height = 20, maxWidth = 0, baseline = 0, ascent = 0, descent = 0, lineSpacing = 0,
      letterSpacing = 0, glyphs = FC_MapCreate FC_DEFAULT_NUM_BUCKETS,
      last_glyph = \<lparr>rect = \<lparr>rect_x = 1, rect_y = 1, rect_w = 0, rect_h = 20\<rparr>, cache_level = 0\<rparr>,
      glyph_cache_size = 3, glyph_cache_count = 1,
      glyph_cache = [Level (Some \<lparr>tex_w = 240, tex_h = 40\<rparr>), Unset, Unset]\<rparr>"

lemma PackGlyphData_placement:
  assumes "placement_width g font cp width = Some wd"
  shows "FC_PackGlyphData g font cp width mw mh = pack_body font cp wd (u16 mw) (u16 mh)"
proof (cases "cp = 9")
  case True
  with assms obtain sg where sg: "FC_MapFind (glyphs font) 32 = Some (Some sg)"
    and wd: "wd = u16 (u32 (fc_tab_width g * u32 (rect_w (rect sg))))"
    by (auto simp: placement_width_def split: option.splits)
  from sg have "get_glyph_with (\<lambda>f c w mw mh. pack_body f c (u16 w) (u16 mw) (u16 mh)) (Some font) 32
                  = Some (font, 1, Some sg)"
    by (rule get_glyph_with_found)
  with True wd show ?thesis
    by (simp add: FC_PackGlyphData_def)
next
  case False
  with assms show ?thesis
    by (auto simp: placement_width_def FC_PackGlyphData_def)
qed

lemma pack_body_exhausted:
  assumes "rect_x (rect (last_glyph font)) + rect_w (rect (last_glyph font)) + wd \<ge> mw - FC_CACHE_PADDING"
    and "rect_y (rect (last_glyph font)) + u16 (height font + FC_CACHE_PADDING)
           + u16 (height font + FC_CACHE_PADDING) \<ge> mh - FC_CACHE_PADDING"
  shows "pack_body font cp wd mw mh =
           Some (font\<lparr>last_glyph :=
                        \<lparr>rect = \<lparr>rect_x = FC_CACHE_PADDING, rect_y = FC_CACHE_PADDING, rect_w = 0,
                                 rect_h = rect_h (rect (last_glyph font))\<rparr>,
                         cache_level = glyph_cache_count font\<rparr>\<rparr>, None)"
  using assms by (simp add: pack_body_def Let_def)

lemma pack_body_fits:
  assumes "rect_x (rect (last_glyph font)) + rect_w (rect (last_glyph font)) + wd < mw - FC_CACHE_PADDING"
  shows "pack_body font cp wd mw mh = pack_place font cp wd"
  using assms by (simp add: pack_body_def Let_def)

lemma pack_place_ok:
  assumes "glyphs font = Some m" and "map_ok m"
  shows "\<exists>m'. pack_place font cp wd =
           Some (font\<lparr>glyphs := Some m',
                      last_glyph := (last_glyph font)\<lparr>rect :=
                         \<lparr>rect_x = rect_x (rect (last_glyph font)) + rect_w (rect (last_glyph font)) + 2,
                          rect_y = rect_y (rect (last_glyph font)), rect_w = wd,
                          rect_h = rect_h (rect (last_glyph font))\<rparr>\<rparr>\<rparr>,
                 Some (FC_MakeGlyphData (cache_level (last_glyph font))
                         (rect_x (rect (last_glyph font)) + rect_w (rect (last_glyph font)) + 2)
                         (rect_y (rect (last_glyph font))) wd (rect_h (rect (last_glyph font)))))
         \<and> FC_MapInsert (Some m) cp (FC_MakeGlyphData (cache_level (last_glyph font))
                         (rect_x (rect (last_glyph font)) + rect_w (rect (last_glyph font)) + 2)
                         (rect_y (rect (last_glyph font))) wd (rect_h (rect (last_glyph font))))
              = Some (Some m', Some (FC_MakeGlyphData (cache_level (last_glyph font))
                         (rect_x (rect (last_glyph font)) + rect_w (rect (last_glyph font)) + 2)
                         (rect_y (rect (last_glyph font))) wd (rect_h (rect (last_glyph font)))))
         \<and> map_ok m'"
proof -
  obtain i where i: "bucket_index m cp = Some i"
    using bucket_index_Some(1) [OF assms(2)] by blast
  show ?thesis
    using assms MapInsert_ok [OF assms(2) i] map_ok_buckets_update [OF assms(2)]
    by (simp add: pack_place_def Let_def FC_CACHE_PADDING_def add.assoc)
qed

lemma pack_three_fresh:
  "Option.bind FC_CreateFont (\<lambda>font. pack_three default_globals font 10 100 100)
     = Some [Some 3, Some 15, Some 27]"
  by code_simp

lemma SetGlyphCacheLevel_next:
  assumes "cache_ok font"
  shows "\<exists>font2. FC_SetGlyphCacheLevel (Some font) (glyph_cache_count font) t = Some (Some font2, 1)
           \<and> glyph_cache_count font2 = glyph_cache_count font + 1
           \<and> cache_ok font2
           \<and> glyphs font2 = glyphs font \<and> last_glyph font2 = last_glyph font
           \<and> renderer font2 = renderer font \<and> ttf_source font2 = ttf_source font
           \<and> height font2 = height font
           \<and> FC_GetGlyphCacheLevel (Some font2) (glyph_cache_count font) = Some t
           \<and> (\<forall>k. 0 \<le> k \<and> k < glyph_cache_count font \<longrightarrow>
                 FC_GetGlyphCacheLevel (Some font2) k = FC_GetGlyphCacheLevel (Some font) k)"
proof (cases "glyph_cache_count font + 1 > glyph_cache_size font")
  case True
  with assms have eq: "glyph_cache_count font = glyph_cache_size font"
    by (simp add: cache_ok_def)
  with assms True show ?thesis
    by (auto simp: FC_SetGlyphCacheLevel_def FC_GetGlyphCacheLevel_def cache_ok_def Let_def
          nth_append nat_add_distrib)
next
  case False
  with assms show ?thesis
    by (auto simp: FC_SetGlyphCacheLevel_def FC_GetGlyphCacheLevel_def cache_ok_def Let_def
          nth_list_update)
qed

lemma GrowGlyphCache_ok:
  assumes "cache_ok font1"
  shows "\<exists>font2 grown.
           FC_GrowGlyphCache (Some font1) = Some (Some font2, grown)
         \<and> grown = (if fst (SDL_CreateTexture (renderer font1) (height font1 * 12) (height font1 * 12))
                        = None then 0 else 1)
         \<and> glyph_cache_count font2 = glyph_cache_count font1 + grown
         \<and> glyphs font2 = glyphs font1 \<and> last_glyph font2 = last_glyph font1
         \<and> (\<forall>k. 0 \<le> k \<and> k < glyph_cache_count font1 \<longrightarrow>
               FC_GetGlyphCacheLevel (Some font2) k = FC_GetGlyphCacheLevel (Some font1) k)
         \<and> (grown = 1 \<longrightarrow>
               FC_GetGlyphCacheLevel (Some font2) (glyph_cache_count font1)
                 = Some (Some \<lparr>tex_w = height font1 * 12, tex_h = height font1 * 12\<rparr>))"
proof (cases "SDL_CreateTexture (renderer font1) (height font1 * 12) (height font1 * 12)")
  case (Pair t r)
  show ?thesis
  proof (cases t)
    case None
    with Pair show ?thesis
      by (simp add: FC_GrowGlyphCache_def FC_GetGlyphCacheLevel_def)
  next
    case (Some new_level)
    have tex: "new_level = \<lparr>tex_w = height font1 * 12, tex_h = height font1 * 12\<rparr>"
      using Pair Some by (auto simp: SDL_CreateTexture_def split: option.splits if_splits)
    have ok: "cache_ok (font1\<lparr>renderer := r\<rparr>)"
      using assms by (simp add: cache_ok_def)
    from SetGlyphCacheLevel_next [OF ok, of "Some new_level"]
    obtain font2 where f2:
      "FC_SetGlyphCacheLevel (Some (font1\<lparr>renderer := r\<rparr>)) (glyph_cache_count font1) (Some new_level)
         = Some (Some font2, 1)"
      "glyph_cache_count font2 = glyph_cache_count font1 + 1"
      "glyphs font2 = glyphs font1" "last_glyph font2 = last_glyph font1"
      "FC_GetGlyphCacheLevel (Some font2) (glyph_cache_count font1) = Some (Some new_level)"
      "\<forall>k. 0 \<le> k \<and> k < glyph_cache_count font1 \<longrightarrow>
         FC_GetGlyphCacheLevel (Some font2) k = FC_GetGlyphCacheLevel (Some (font1\<lparr>renderer := r\<rparr>)) k"
      by auto
    have same: "FC_GetGlyphCacheLevel (Some (font1\<lparr>renderer := r\<rparr>)) k = FC_GetGlyphCacheLevel (Some font1) k" for k
      by (simp add: FC_GetGlyphCacheLevel_def)
    from Pair Some f2 same tex show ?thesis
      by (simp add: FC_GrowGlyphCache_def)
  qed
qed

text \<open>
  Claim C5, as amended. When the glyph fits neither in the current row nor in a fresh row
  (the two tests of the code, on the \<^verbatim>\<open>Uint16\<close> values of its arguments), and the codepoint
  is not a TAB or the space is already in the glyph map, \<^verbatim>\<open>FC_PackGlyphData\<close> returns
  null and changes nothing of the font but the cursor: its level becomes the current
  number of levels, its x and y the padding, its width 0. The glyph map and the cache
  levels stay as they were.
\<close>

theorem pack_level_exhausted:
  assumes "placement_width g font cp width = Some wd"
    and "rect_x (rect (last_glyph font)) + rect_w (rect (last_glyph font)) + wd
           \<ge> u16 maxWidth' - FC_CACHE_PADDING"
    and "rect_y (rect (last_glyph font)) + u16 (height font + FC_CACHE_PADDING)
           + u16 (height font + FC_CACHE_PADDING) \<ge> u16 maxHeight - FC_CACHE_PADDING"
  shows "FC_PackGlyphData g font cp width maxWidth' maxHeight =
           Some (font\<lparr>last_glyph :=
                        \<lparr>rect = \<lparr>rect_x = FC_CACHE_PADDING, rect_y = FC_CACHE_PADDING, rect_w = 0,
                                 rect_h = rect_h (rect (last_glyph font))\<rparr>,
                         cache_level = glyph_cache_count font\<rparr>\<rparr>, None)"
  using PackGlyphData_placement [OF assms(1)] pack_body_exhausted [OF assms(2,3)]
  by simp

theorem pack_level_exhausted_witness:
  "placement_width default_globals (tab_font\<lparr>ttf_source := None\<rparr>) 0x61 30 = Some 30
   \<and> (200::int) + 10 + 30 \<ge> u16 240 - FC_CACHE_PADDING
   \<and> (200::int) + u16 (20 + FC_CACHE_PADDING) + u16 (20 + FC_CACHE_PADDING) \<ge> u16 240 - FC_CACHE_PADDING
   \<and> FC_PackGlyphData default_globals (tab_font\<lparr>ttf_source := None\<rparr>) 0x61 30 240 240 =
           Some (tab_font\<lparr>ttf_source := None, last_glyph :=
                        \<lparr>rect = \<lparr>rect_x = 1, rect_y = 1, rect_w = 0, rect_h = 20\<rparr>,
                         cache_level = 1\<rparr>\<rparr>, None)"
proof -
  have a: "placement_width default_globals (tab_font\<lparr>ttf_source := None\<rparr>) 0x61 30 = Some 30"
    by (simp add: placement_width_def u16_def)
  have b: "rect_x (rect (last_glyph (tab_font\<lparr>ttf_source := None\<rparr>)))
             + rect_w (rect (last_glyph (tab_font\<lparr>ttf_source := None\<rparr>))) + 30
           \<ge> u16 240 - FC_CACHE_PADDING"
    by (simp add: tab_font_def u16_def FC_CACHE_PADDING_def)
  have c: "rect_y (rect (last_glyph (tab_font\<lparr>ttf_source := None\<rparr>)))
             + u16 (height (tab_font\<lparr>ttf_source := None\<rparr>) + FC_CACHE_PADDING)
             + u16 (height (tab_font\<lparr>ttf_source := None\<rparr>) + FC_CACHE_PADDING)
           \<ge> u16 240 - FC_CACHE_PADDING"
    by (simp add: tab_font_def u16_def FC_CACHE_PADDING_def)
  show ?thesis
    using pack_level_exhausted [OF a b c] a
    by (simp add: tab_font_def u16_def FC_CACHE_PADDING_def)
qed

text \<open>
  The claim as stated fails for a TAB: the packer first asks \<^verbatim>\<open>FC_GetGlyphData\<close> for the
  space, which packs the space and puts it into the glyph map, and only then finds that
  the TAB does not fit.
\<close>

theorem pack_tab_inserts_space_counterexample:
  "map_option snd (FC_PackGlyphData default_globals tab_font 9 0 240 240) = Some None
   \<and> FC_MapFind (glyphs tab_font) 32 = Some None
   \<and> Option.bind (FC_PackGlyphData default_globals tab_font 9 0 240 240)
        (\<lambda>(font1, e). FC_MapFind (glyphs font1) 32)
       = Some (Some \<lparr>rect = \<lparr>rect_x = 212, rect_y = 200, rect_w = 6, rect_h = 20\<rparr>,
                      cache_level = 0\<rparr>)"
  by code_simp

text \<open>
  Claim C1, as amended. When the code's test lets the glyph into the current row (cursor
  x plus cursor width plus the glyph's width is below \<^verbatim>\<open>maxWidth\<close> minus the padding), the
  map is the font's own, and the codepoint is not a TAB or the space is in the map, the
  packer records the glyph two pixels right of the right edge of the last glyph, at
  \<open>x = cursor.x + cursor.w + 2\<close>, on the cursor's row and level, and the cursor becomes
  that rectangle. The recorded rectangle is the value a lookup of the codepoint returns
  when the map did not hold it. Three glyphs of width 10, packed into a fresh font with a
  level 100 wide, are recorded at x = 3, 15 and 27.
\<close>

theorem pack_fits_in_row:
  assumes "placement_width g font cp width = Some wd"
    and "glyphs font = Some m" and "map_ok m"
    and "rect_x (rect (last_glyph font)) + rect_w (rect (last_glyph font)) + wd
           < u16 maxWidth' - FC_CACHE_PADDING"
  shows "(\<exists>font1 e.
            FC_PackGlyphData g font cp width maxWidth' maxHeight = Some (font1, Some e)
          \<and> e = FC_MakeGlyphData (cache_level (last_glyph font))
                  (rect_x (rect (last_glyph font)) + rect_w (rect (last_glyph font)) + 2)
                  (rect_y (rect (last_glyph font))) wd (rect_h (rect (last_glyph font)))
          \<and> last_glyph font1 =
                \<lparr>rect = \<lparr>rect_x = rect_x (rect (last_glyph font))
                                    + rect_w (rect (last_glyph font)) + 2,
                         rect_y = rect_y (rect (last_glyph font)), rect_w = wd,
                         rect_h = rect_h (rect (last_glyph font))\<rparr>,
                 cache_level = cache_level (last_glyph font)\<rparr>
          \<and> FC_MapInsert (glyphs font) cp e = Some (glyphs font1, Some e)
          \<and> (FC_MapFind (glyphs font) cp = Some None
                \<longrightarrow> FC_MapFind (glyphs font1) cp = Some (Some e)))
       \<and> Option.bind FC_CreateFont (\<lambda>font. pack_three default_globals font 10 100 100)
           = Some [Some 3, Some 15, Some 27]"
proof (intro conjI)
  define e where "e = FC_MakeGlyphData (cache_level (last_glyph font))
                  (rect_x (rect (last_glyph font)) + rect_w (rect (last_glyph font)) + 2)
                  (rect_y (rect (last_glyph font))) wd (rect_h (rect (last_glyph font)))"
  from pack_place_ok [OF assms(2,3), of cp wd]
  obtain m' where place: "pack_place font cp wd =
           Some (font\<lparr>glyphs := Some m',
                      last_glyph := (last_glyph font)\<lparr>rect :=
                         \<lparr>rect_x = rect_x (rect (last_glyph font)) + rect_w (rect (last_glyph font)) + 2,
                          rect_y = rect_y (rect (last_glyph font)), rect_w = wd,
                          rect_h = rect_h (rect (last_glyph font))\<rparr>\<rparr>\<rparr>, Some e)"
    and ins: "FC_MapInsert (Some m) cp e = Some (Some m', Some e)"
    unfolding e_def by blast
  have pack: "FC_PackGlyphData g font cp width maxWidth' maxHeight = pack_place font cp wd"
    using PackGlyphData_placement [OF assms(1)] pack_body_fits [OF assms(4)] by simp
  have found: "FC_MapFind (Some m') cp = Some (Some e)" if "FC_MapFind (glyphs font) cp = Some None"
  proof -
    obtain i where i: "bucket_index m cp = Some i"
      using bucket_index_Some(1) [OF assms(3)] by blast
    from that i assms(2) have "chain_find (buckets m ! i) cp = None"
      by (simp add: FC_MapFind_def)
    moreover from ins MapInsert_ok [OF assms(3) i, of e]
    have "m' = m\<lparr>buckets := (buckets m)[i := buckets m ! i @ [(cp, e)]]\<rparr>"
      by simp
    ultimately show ?thesis
      using MapFind_after_insert [OF assms(3) i i, of e] by simp
  qed
  show "\<exists>font1 e.
            FC_PackGlyphData g font cp width maxWidth' maxHeight = Some (font1, Some e)
          \<and> e = FC_MakeGlyphData (cache_level (last_glyph font))
                  (rect_x (rect (last_glyph font)) + rect_w (rect (last_glyph font)) + 2)
                  (rect_y (rect (last_glyph font))) wd (rect_h (rect (last_glyph font)))
          \<and> last_glyph font1 =
                \<lparr>rect = \<lparr>rect_x = rect_x (rect (last_glyph font))
                                    + rect_w (rect (last_glyph font)) + 2,
                         rect_y = rect_y (rect (last_glyph font)), rect_w = wd,
                         rect_h = rect_h (rect (last_glyph font))\<rparr>,
                 cache_level = cache_level (last_glyph font)\<rparr>
          \<and> FC_MapInsert (glyphs font) cp e = Some (glyphs font1, Some e)
          \<and> (FC_MapFind (glyphs font) cp = Some None
                \<longrightarrow> FC_MapFind (glyphs font1) cp = Some (Some e))"
    using pack place ins found assms(2) e_def by simp
next
  show "Option.bind FC_CreateFont (\<lambda>font. pack_three default_globals font 10 100 100)
           = Some [Some 3, Some 15, Some 27]"
    by (rule pack_three_fresh)
qed

theorem pack_fits_in_row_witness:
  "placement_width default_globals (the FC_CreateFont) 0x61 10 = Some 10
   \<and> glyphs (the FC_CreateFont) = Some \<lparr>num_buckets = 300, buckets = replicate 300 []\<rparr>
   \<and> map_ok \<lparr>num_buckets = 300, buckets = replicate 300 []\<rparr>
   \<and> rect_x (rect (last_glyph (the FC_CreateFont))) + rect_w (rect (last_glyph (the FC_CreateFont))) + 10
           < u16 100 - FC_CACHE_PADDING
   \<and> map_option (\<lambda>(font1, e). (last_glyph font1, e))
        (FC_PackGlyphData default_globals (the FC_CreateFont) 0x61 10 100 100)
       = Some (\<lparr>rect = \<lparr>rect_x = 3, rect_y = 1, rect_w = 10, rect_h = 0\<rparr>, cache_level = 0\<rparr>,
               Some \<lparr>rect = \<lparr>rect_x = 3, rect_y = 1, rect_w = 10, rect_h = 0\<rparr>, cache_level = 0\<rparr>)"
proof -
  define f0 where "f0 = the FC_CreateFont"
  define m0 :: FC_Map where "m0 = \<lparr>num_buckets = 300, buckets = replicate 300 []\<rparr>"
  have f0: "glyphs f0 = Some m0"
     "last_glyph f0 = \<lparr>rect = \<lparr>rect_x = 1, rect_y = 1, rect_w = 0, rect_h = 0\<rparr>, cache_level = 0\<rparr>"
    by (simp_all add: f0_def m0_def FC_CreateFont_def FC_Init_def zeroed_font_def FC_MapCreate_def
          FC_DEFAULT_NUM_BUCKETS_def FC_CACHE_PADDING_def)
  have a: "placement_width default_globals f0 0x61 10 = Some 10"
    by (simp add: placement_width_def u16_def)
  have c: "map_ok m0"
    by (simp add: m0_def map_ok_def)
  have d: "rect_x (rect (last_glyph f0)) + rect_w (rect (last_glyph f0)) + 10 < u16 100 - FC_CACHE_PADDING"
    by (simp add: f0 u16_def FC_CACHE_PADDING_def)
  from pack_fits_in_row [OF a f0(1) c d, of 100]
  have "map_option (\<lambda>(font1, e). (last_glyph font1, e))
        (FC_PackGlyphData default_globals f0 0x61 10 100 100)
       = Some (\<lparr>rect = \<lparr>rect_x = 3, rect_y = 1, rect_w = 10, rect_h = 0\<rparr>, cache_level = 0\<rparr>,
               Some \<lparr>rect = \<lparr>rect_x = 3, rect_y = 1, rect_w = 10, rect_h = 0\<rparr>, cache_level = 0\<rparr>)"
    by (auto simp: f0 FC_MakeGlyphData_def s16_def u16_def)
  with a f0 c d show ?thesis
    by (simp add: f0_def m0_def)
qed

text \<open>
  The claim's own numbers fail: the three glyphs are not at x = 1, 12, 23, and the first
  one is not at the cursor position (1, 1) of the fresh font but at (3, 1).
\<close>

theorem pack_three_counterexample:
  "Option.bind FC_CreateFont (\<lambda>font. pack_three default_globals font 10 100 100)
     \<noteq> Some [Some 1, Some 12, Some 23]
   \<and> Option.bind FC_CreateFont
        (\<lambda>font. map_option (\<lambda>(font1, e). (rect (last_glyph font), map_option rect e))
                   (FC_PackGlyphData default_globals font 0x61 10 100 100))
       = Some (\<lparr>rect_x = 1, rect_y = 1, rect_w = 0, rect_h = 0\<rparr>,
               Some \<lparr>rect_x = 3, rect_y = 1, rect_w = 10, rect_h = 0\<rparr>)"
proof -
  have "Option.bind FC_CreateFont
        (\<lambda>font. map_option (\<lambda>(font1, e). (rect (last_glyph font), map_option rect e))
                   (FC_PackGlyphData default_globals font 0x61 10 100 100))
       = Some (\<lparr>rect_x = 1, rect_y = 1, rect_w = 0, rect_h = 0\<rparr>,
               Some \<lparr>rect_x = 3, rect_y = 1, rect_w = 10, rect_h = 0\<rparr>)"
    by code_simp
  then show ?thesis
    using pack_three_fresh by simp
qed

subsection \<open>The glyph provider\<close>

text \<open>
  Claim C4, as amended. A codepoint that is in the glyph map is returned from it. For one
  that is not, when the rasterizer is present and the cursor's level can be read: if the
  rasterizer returns null, \<^verbatim>\<open>FC_GetGlyphData\<close> returns 0; if the first call of the packer
  returns null, \<^verbatim>\<open>FC_GrowGlyphCache\<close> runs once, which adds one level when SDL creates the
  texture and none when it does not, and the packer is called once more on the font as
  the growth left it: when that call returns null the result is 0, otherwise the glyph is
  added to the cache and returned.
\<close>

theorem get_glyph_grow_and_retry:
  "(FC_MapFind (glyphs font) cp = Some (Some e)
      \<longrightarrow> FC_GetGlyphData g (Some font) cp = Some (font, 1, Some e))
   \<and> (FC_MapFind (glyphs font) cp = Some None \<and> ttf_source font = Some ttf
        \<and> FC_GetGlyphCacheLevel (Some font) (cache_level (last_glyph font)) = Some (Some cache_image)
      \<longrightarrow> (render_codepoint ttf cp = None
             \<longrightarrow> FC_GetGlyphData g (Some font) cp = Some (font, 0, None))
        \<and> (\<forall>surf_w font1.
              render_codepoint ttf cp = Some surf_w
              \<and> FC_PackGlyphData g font cp surf_w (tex_w cache_image) (tex_h cache_image)
                  = Some (font1, None)
              \<and> cache_ok font1
            \<longrightarrow> (\<exists>font2 grown.
                   FC_GrowGlyphCache (Some font1) = Some (Some font2, grown)
                 \<and> grown = (if fst (SDL_CreateTexture (renderer font1)
                                       (height font1 * 12) (height font1 * 12)) = None
                             then 0 else 1)
                 \<and> glyph_cache_count font2 = glyph_cache_count font1 + grown
                 \<and> FC_GetGlyphData g (Some font) cp =
                     (case FC_PackGlyphData g font2 cp surf_w (tex_w cache_image) (tex_h cache_image) of
                        None \<Rightarrow> None
                      | Some (font3, None) \<Rightarrow> Some (font3, 0, None)
                      | Some (font3, Some e') \<Rightarrow> glyph_added font3 surf_w e'))))"
proof (intro conjI impI allI)
  assume "FC_MapFind (glyphs font) cp = Some (Some e)"
  then show "FC_GetGlyphData g (Some font) cp = Some (font, 1, Some e)"
    unfolding FC_GetGlyphData_def by (rule get_glyph_with_found)
next
  assume miss: "FC_MapFind (glyphs font) cp = Some None \<and> ttf_source font = Some ttf
        \<and> FC_GetGlyphCacheLevel (Some font) (cache_level (last_glyph font)) = Some (Some cache_image)"
    and "render_codepoint ttf cp = None"
  then show "FC_GetGlyphData g (Some font) cp = Some (font, 0, None)"
    by (simp add: FC_GetGlyphData_def get_glyph_with_def)
next
  fix surf_w font1
  assume miss: "FC_MapFind (glyphs font) cp = Some None \<and> ttf_source font = Some ttf
        \<and> FC_GetGlyphCacheLevel (Some font) (cache_level (last_glyph font)) = Some (Some cache_image)"
    and first: "render_codepoint ttf cp = Some surf_w
              \<and> FC_PackGlyphData g font cp surf_w (tex_w cache_image) (tex_h cache_image)
                  = Some (font1, None)
              \<and> cache_ok font1"
  from first GrowGlyphCache_ok [of font1]
  obtain font2 grown where grow:
    "FC_GrowGlyphCache (Some font1) = Some (Some font2, grown)"
    "grown = (if fst (SDL_CreateTexture (renderer font1) (height font1 * 12) (height font1 * 12))
                  = None then 0 else 1)"
    "glyph_cache_count font2 = glyph_cache_count font1 + grown"
    by blast
  have "FC_GetGlyphData g (Some font) cp =
          (case FC_PackGlyphData g font2 cp surf_w (tex_w cache_image) (tex_h cache_image) of
             None \<Rightarrow> None
           | Some (font3, None) \<Rightarrow> Some (font3, 0, None)
           | Some (font3, Some e') \<Rightarrow> glyph_added font3 surf_w e')"
    using miss first grow(1) by (simp add: FC_GetGlyphData_def get_glyph_with_def)
  with grow show "\<exists>font2 grown.
                   FC_GrowGlyphCache (Some font1) = Some (Some font2, grown)
                 \<and> grown = (if fst (SDL_CreateTexture (renderer font1)
                                       (height font1 * 12) (height font1 * 12)) = None
                             then 0 else 1)
                 \<and> glyph_cache_count font2 = glyph_cache_count font1 + grown
                 \<and> FC_GetGlyphData g (Some font) cp =
                     (case FC_PackGlyphData g font2 cp surf_w (tex_w cache_image) (tex_h cache_image) of
                        None \<Rightarrow> None
                      | Some (font3, None) \<Rightarrow> Some (font3, 0, None)
                      | Some (font3, Some e') \<Rightarrow> glyph_added font3 surf_w e')"
    by blast
qed

theorem get_glyph_grow_and_retry_witness:
  "FC_MapFind (glyphs full_font) 0x61 = Some None
   \<and> FC_GetGlyphCacheLevel (Some full_font) (cache_level (last_glyph full_font))
       = Some (Some \<lparr>tex_w = 240, tex_h = 240\<rparr>)
   \<and> FC_PackGlyphData default_globals full_font 0x61 40 240 240
       = Some (full_font\<lparr>last_glyph := \<lparr>rect = \<lparr>rect_x = 1, rect_y = 1, rect_w = 0, rect_h = 20\<rparr>,
                                         cache_level = 1\<rparr>\<rparr>, None)
   \<and> (\<exists>font2.
          FC_GrowGlyphCache
            (Some (full_font\<lparr>last_glyph := \<lparr>rect = \<lparr>rect_x = 1, rect_y = 1, rect_w = 0, rect_h = 20\<rparr>,
                                            cache_level = 1\<rparr>\<rparr>)) = Some (Some font2, 1)
        \<and> glyph_cache_count font2 = 2
        \<and> FC_GetGlyphData default_globals (Some full_font) 0x61 =
            (case FC_PackGlyphData default_globals font2 0x61 40 240 240 of
               None \<Rightarrow> None
             | Some (font3, None) \<Rightarrow> Some (font3, 0, None)
             | Some (font3, Some e') \<Rightarrow> glyph_added font3 40 e'))
   \<and> map_option (\<lambda>(font3, ret, e). (ret, e, glyph_cache_count font3))
        (FC_GetGlyphData default_globals (Some full_font) 0x61)
       = Some (1, Some \<lparr>rect = \<lparr>rect_x = 3, rect_y = 1, rect_w = 40, rect_h = 20\<rparr>, cache_level = 1\<rparr>, 2)"
proof -
  define ttf :: TTF_Font where "ttf = (\<lambda>s. if s = [0x61] then Some 40 else None)"
  define img :: SDL_Texture where "img = \<lparr>tex_w = 240, tex_h = 240\<rparr>"
  define font1 where
    "font1 = full_font\<lparr>last_glyph := \<lparr>rect = \<lparr>rect_x = 1, rect_y = 1, rect_w = 0, rect_h = 20\<rparr>,
                                       cache_level = 1\<rparr>\<rparr>"
  have miss: "FC_MapFind (glyphs full_font) 0x61 = Some None"
    by code_simp
  have src: "ttf_source full_font = Some ttf"
    by (simp add: full_font_def ttf_def)
  have lvl: "FC_GetGlyphCacheLevel (Some full_font) (cache_level (last_glyph full_font)) = Some (Some img)"
    by (simp add: full_font_def img_def FC_GetGlyphCacheLevel_def)
  have ren: "render_codepoint ttf 0x61 = Some 40"
    unfolding ttf_def by code_simp
  have pw: "placement_width default_globals full_font 0x61 40 = Some 40"
    by (simp add: placement_width_def u16_def)
  have pack: "FC_PackGlyphData default_globals full_font 0x61 40 (tex_w img) (tex_h img) = Some (font1, None)"
    unfolding PackGlyphData_placement [OF pw]
    by (subst pack_body_exhausted)
       (simp_all add: full_font_def img_def font1_def u16_def FC_CACHE_PADDING_def)
  have ok: "cache_ok font1"
    by (simp add: font1_def full_font_def cache_ok_def)
  have tex: "fst (SDL_CreateTexture (renderer font1) (height font1 * 12) (height font1 * 12)) \<noteq> None"
    by (simp add: font1_def full_font_def SDL_CreateTexture_def)
  have cnt: "glyph_cache_count font1 = 1"
    by (simp add: font1_def full_font_def)
  from get_glyph_grow_and_retry [of full_font "0x61" _ default_globals ttf img] miss src lvl ren pack ok
  obtain font2 grown where g:
    "FC_GrowGlyphCache (Some font1) = Some (Some font2, grown)"
    "grown = (if fst (SDL_CreateTexture (renderer font1) (height font1 * 12) (height font1 * 12)) = None
              then 0 else 1)"
    "glyph_cache_count font2 = glyph_cache_count font1 + grown"
    "FC_GetGlyphData default_globals (Some full_font) 0x61 =
       (case FC_PackGlyphData default_globals font2 0x61 40 (tex_w img) (tex_h img) of
          None \<Rightarrow> None
        | Some (font3, None) \<Rightarrow> Some (font3, 0, None)
        | Some (font3, Some e') \<Rightarrow> glyph_added font3 40 e')"
    by blast
  from g(2) tex have one: "grown = 1"
    by simp
  have final: "map_option (\<lambda>(font3, ret, e). (ret, e, glyph_cache_count font3))
        (FC_GetGlyphData default_globals (Some full_font) 0x61)
       = Some (1, Some \<lparr>rect = \<lparr>rect_x = 3, rect_y = 1, rect_w = 40, rect_h = 20\<rparr>, cache_level = 1\<rparr>, 2)"
    by code_simp
  from miss lvl pack g one cnt final show ?thesis
    unfolding img_def font1_def by auto
qed

text \<open>
  The claim as stated fails when SDL cannot create the texture: the first call of the
  packer fails, no level is added, the second call fails too and the result is 0.
\<close>

theorem get_glyph_no_growth_counterexample:
  "FC_MapFind (glyphs stuck_font) 0x61 = Some None
   \<and> map_option snd (FC_PackGlyphData default_globals stuck_font 0x61 250 240 40) = Some None
   \<and> glyph_cache_count stuck_font = 1
   \<and> map_option (\<lambda>(font3, ret, e). (ret, e, glyph_cache_count font3))
        (FC_GetGlyphData default_globals (Some stuck_font) 0x61) = Some (0, None, 1)"
  by code_simp

section \<open>Text layout: measuring and wrapping\<close>

text \<open>
  \<^verbatim>\<open>FC_EXTRACT_VARARGS\<close> is \<^verbatim>\<open>vsnprintf(fc_buffer, fc_buffer_size, ...)\<close>: the formatted text is
  cut to \<^verbatim>\<open>fc_buffer_size - 1\<close> bytes and terminated. The argument \<open>expansion\<close> is the text the
  format string and its arguments expand to.
\<close>

definition FC_EXTRACT_VARARGS :: "FC_Globals \<Rightarrow> byte list \<Rightarrow> byte list" where
  "FC_EXTRACT_VARARGS g expansion = take (nat (fc_buffer_size g) - 1) expansion @ [0]"

subsection \<open>Measuring: \<^verbatim>\<open>FC_GetWidth\<close>\<close>

text \<open>
  The condition \<^verbatim>\<open>FC_GetGlyphData(font, &glyph, codepoint) || FC_GetGlyphData(font, &glyph, ' ')\<close>
  of \<^verbatim>\<open>FC_GetWidth\<close>, with the font the calls leave and the glyph they stored; no glyph
  when both return 0.
\<close>

definition glyph_or_space ::
  "FC_Globals \<Rightarrow> FC_Font \<Rightarrow> Uint32 \<Rightarrow> (FC_Font \<times> FC_GlyphData option) option" where
  "glyph_or_space g font codepoint =
     (case FC_GetGlyphData g (Some font) codepoint of
        None \<Rightarrow> None
      | Some (font1, ok1, e1) \<Rightarrow>
          if ok1 \<noteq> 0 then Some (font1, e1)
          else
            (case FC_GetGlyphData g (Some font1) 32 of
               None \<Rightarrow> None
             | Some (font2, ok2, e2) \<Rightarrow> if ok2 \<noteq> 0 then Some (font2, e2) else Some (font2, None)))"

lemma decode_at_length:
  assumes "decode_at c a = Some (cp, c')"
  shows "c \<noteq> [] \<and> length c' \<le> length c"
  using assms
  by (auto simp: decode_at_def rd_def split: option.splits if_splits)

text \<open>
  The loop of \<^verbatim>\<open>FC_GetWidth\<close> at the pointer \<open>c\<close>: the end of the string, a newline, or a
  character, which \<^verbatim>\<open>FC_GetCodepointFromUTF8(&c, 1)\<close> decodes and skips but for its last byte;
  the \<^verbatim>\<open>c++\<close> of the loop skips that one. \<^verbatim>\<open>width\<close> and \<^verbatim>\<open>bigWidth\<close> are \<^verbatim>\<open>Uint16\<close>. A read past the
  memory of the string is \<open>None\<close>.
\<close>

function width_loop ::
  "FC_Globals \<Rightarrow> FC_Font \<Rightarrow> byte list \<Rightarrow> int \<Rightarrow> int \<Rightarrow> (FC_Font \<times> int) option" where
  "width_loop g font c width bigWidth =
     (case rd c 0 of
        None \<Rightarrow> None
      | Some b \<Rightarrow>
          if b = 0 then Some (font, if bigWidth \<ge> width then bigWidth else width)
          else if b = 10 then
            width_loop g font (drop 1 c) 0 (if bigWidth \<ge> width then bigWidth else width)
          else
            (case decode_at c 1 of
               None \<Rightarrow> None
             | Some (codepoint, c') \<Rightarrow>
                 (case glyph_or_space g font codepoint of
                    None \<Rightarrow> None
                  | Some (font1, Some glyph) \<Rightarrow>
                      width_loop g font1 (drop 1 c') (u16 (width + rect_w (rect glyph))) bigWidth
                  | Some (font1, None) \<Rightarrow> width_loop g font1 (drop 1 c') width bigWidth)))"
  by pat_completeness auto
termination
proof (relation "measure (\<lambda>(g, font, c, width, bigWidth). length c)")
  show "wf (measure (\<lambda>(g, font, c, width, bigWidth). length c))"
    by simp
next
  fix g :: FC_Globals and font :: FC_Font and c :: "byte list" and width bigWidth :: int and b :: byte
  assume "rd c 0 = Some b"
  then have "c \<noteq> []"
    by (auto simp: rd_def split: if_splits)
  then show "((g, font, drop 1 c, 0, if width \<le> bigWidth then bigWidth else width),
              (g, font, c, width, bigWidth)) \<in> measure (\<lambda>(g, font, c, width, bigWidth). length c)"
    by (cases c) auto
next
  fix g :: FC_Globals and font font1 :: FC_Font and c c' :: "byte list" and width bigWidth :: int
    and b :: byte and x2 codepoint and glyph :: FC_GlyphData
  assume "decode_at c 1 = Some x2" "(codepoint, c') = x2"
  then have "c \<noteq> [] \<and> length c' \<le> length c"
    using decode_at_length [of c 1 codepoint c'] by simp
  then show "((g, font1, drop 1 c', u16 (width + rect_w (rect glyph)), bigWidth),
              (g, font, c, width, bigWidth)) \<in> measure (\<lambda>(g, font, c, width, bigWidth). length c)"
    by (cases c) auto
next
  fix g :: FC_Globals and font font1 :: FC_Font and c c' :: "byte list" and width bigWidth :: int
    and b :: byte and x2 codepoint
  assume "decode_at c 1 = Some x2" "(codepoint, c') = x2"
  then have "c \<noteq> [] \<and> length c' \<le> length c"
    using decode_at_length [of c 1 codepoint c'] by simp
  then show "((g, font1, drop 1 c', width, bigWidth),
              (g, font, c, width, bigWidth)) \<in> measure (\<lambda>(g, font, c, width, bigWidth). length c)"
    by (cases c) auto
qed

text \<open>\<^verbatim>\<open>Uint16 FC_GetWidth(FC_Font* font, const char* formatted_text, ...)\<close>, with the font it leaves.\<close>

definition FC_GetWidth ::
  "FC_Globals \<Rightarrow> FC_Font option \<Rightarrow> byte list option \<Rightarrow> (FC_Font option \<times> int) option" where
  "FC_GetWidth g font' formatted_text =
     (case (formatted_text, font') of
        (Some expansion, Some font) \<Rightarrow>
          (case width_loop g font (FC_EXTRACT_VARARGS g expansion) 0 0 of
             None \<Rightarrow> None
           | Some (font1, bigWidth) \<Rightarrow> Some (Some font1, bigWidth))
      | _ \<Rightarrow> Some (font', 0))"


declare width_loop.simps [simp del]

subsection \<open>The width as the widest line\<close>

text \<open>
  The same loop in three phases. \<open>scan_text\<close> reads the buffer as the loop does, into
  codepoints and newlines (\<open>None\<close>); \<open>glyph_widths\<close> looks the codepoints up one after the
  other, as the loop does, and gives the width each adds; \<open>widest_line\<close> is the greatest sum
  of a line, reduced modulo \<open>2 ^ 16\<close>.
\<close>

function scan_text :: "byte list \<Rightarrow> Uint32 option list option" where
  "scan_text c =
     (case rd c 0 of
        None \<Rightarrow> None
      | Some b \<Rightarrow>
          if b = 0 then Some []
          else if b = 10 then map_option (Cons None) (scan_text (drop 1 c))
          else
            (case decode_at c 1 of
               None \<Rightarrow> None
             | Some (codepoint, c') \<Rightarrow> map_option (Cons (Some codepoint)) (scan_text (drop 1 c'))))"
  by pat_completeness auto
termination
proof (relation "measure length")
  show "wf (measure length)"
    by simp
next
  fix c :: "byte list" and b :: byte
  assume "rd c 0 = Some b"
  then have "c \<noteq> []"
    by (auto simp: rd_def split: if_splits)
  then show "(drop 1 c, c) \<in> measure length"
    by (cases c) auto
next
  fix c c' :: "byte list" and b :: byte and x2 codepoint
  assume "decode_at c 1 = Some x2" "(codepoint, c') = x2"
  then have "c \<noteq> [] \<and> length c' \<le> length c"
    using decode_at_length [of c 1 codepoint c'] by simp
  then show "(drop 1 c', c) \<in> measure length"
    by (cases c) auto
qed

declare scan_text.simps [simp del]














lemma scan_text_end:
  "rd c 0 = None \<Longrightarrow> scan_text c = None"
  "rd c 0 = Some 0 \<Longrightarrow> scan_text c = Some []"
  by (simp_all add: scan_text.simps [of c])

lemma scan_text_newline:
  "rd c 0 = Some 10 \<Longrightarrow> scan_text c = map_option (Cons None) (scan_text (drop 1 c))"
  by (simp add: scan_text.simps [of c])

lemma scan_text_char:
  assumes "rd c 0 = Some b" "b \<noteq> 0" "b \<noteq> 10"
  shows "scan_text c =
           (case decode_at c 1 of
               None \<Rightarrow> None
             | Some (codepoint, c') \<Rightarrow> map_option (Cons (Some codepoint)) (scan_text (drop 1 c')))"
  using assms by (simp add: scan_text.simps [of c])






subsection \<open>Splitting and wrapping: \<^verbatim>\<open>FC_GetBufferFitToColumn\<close>\<close>

text \<open>
  The three splitting functions, on the bytes of the string before its terminator.
  \<^verbatim>\<open>FC_Explode\<close> drops the delimiters; \<^verbatim>\<open>FC_ExplodeAndKeep\<close> starts each piece after the first
  with the delimiter that ended the one before; \<^verbatim>\<open>FC_ExplodeBreakingSpace\<close> cuts at spaces and
  tabs and returns the words and, beside each word, the separator that ended it (the
  empty string after the last word, where the terminator was copied).
\<close>

fun explode_from :: "byte \<Rightarrow> byte list \<Rightarrow> byte list \<Rightarrow> byte list list" where
  "explode_from delimiter piece [] = [piece]"
| "explode_from delimiter piece (b # rest) =
     (if b = delimiter then piece # explode_from delimiter [] rest
      else explode_from delimiter (piece @ [b]) rest)"

definition FC_Explode :: "byte list \<Rightarrow> byte \<Rightarrow> byte list list" where
  "FC_Explode text delimiter = explode_from delimiter [] text"

fun explode_keep_from :: "byte \<Rightarrow> byte list \<Rightarrow> byte list \<Rightarrow> byte list list" where
  "explode_keep_from delimiter piece [] = [piece]"
| "explode_keep_from delimiter piece (b # rest) =
     (if b = delimiter then piece # explode_keep_from delimiter [b] rest
      else explode_keep_from delimiter (piece @ [b]) rest)"

definition FC_ExplodeAndKeep :: "byte list \<Rightarrow> byte \<Rightarrow> byte list list" where
  "FC_ExplodeAndKeep text delimiter = explode_keep_from delimiter [] text"

fun explode_space_from :: "byte list \<Rightarrow> byte list \<Rightarrow> byte list list \<times> byte list list" where
  "explode_space_from piece [] = ([piece], [[]])"
| "explode_space_from piece (b # rest) =
     (if b = 32 \<or> b = 9 then
        (case explode_space_from [] rest of (words, spaces) \<Rightarrow> (piece # words, [b] # spaces))
      else explode_space_from (piece @ [b]) rest)"

definition FC_ExplodeBreakingSpace :: "byte list \<Rightarrow> byte list list \<times> byte list list" where
  "FC_ExplodeBreakingSpace text = explode_space_from [] text"

text \<open>
  The inner loop of \<^verbatim>\<open>FC_GetBufferFitToColumn\<close>, over the words after the first and their
  separators: \<open>line\<close> is the line being filled and \<open>current\<close> the lines pushed so far. The
  test measures \<^verbatim>\<open>line_plus_word\<close>; what is appended is \<^verbatim>\<open>word_plus_space\<close>.
\<close>

fun wrap_words ::
  "FC_Globals \<Rightarrow> FC_Font option \<Rightarrow> int \<Rightarrow> byte list list \<Rightarrow> byte list list \<Rightarrow> byte list
     \<Rightarrow> byte list list \<Rightarrow> (FC_Font option \<times> byte list \<times> byte list list) option" where
  "wrap_words g font width (word # word_iter) (space # spaces_iter) line current =
     (let line_plus_word = line @ word;
          word_plus_space = word @ space
      in case FC_GetWidth g font (Some line_plus_word) of
           None \<Rightarrow> None
         | Some (font1, w) \<Rightarrow>
             if w > width then
               wrap_words g font1 width word_iter spaces_iter word_plus_space (current @ [line])
             else
               wrap_words g font1 width word_iter spaces_iter (line @ word_plus_space) current)"
| "wrap_words g font width word_iter spaces_iter line current = Some (font, line, current)"

text \<open>
  The body of the outer loop, for one piece of the buffer: the piece is pushed as it is
  unless \<^verbatim>\<open>width > 0\<close> and it measures more than \<^verbatim>\<open>width\<close>; then it is exploded and the line
  starts as the first word and its separator.
\<close>

definition fit_line ::
  "FC_Globals \<Rightarrow> FC_Font option \<Rightarrow> int \<Rightarrow> byte list \<Rightarrow> byte list list
     \<Rightarrow> (FC_Font option \<times> byte list list) option" where
  "fit_line g font width line current =
     (case (if width > 0 then
              map_option (\<lambda>(font1, w). (font1, w > width)) (FC_GetWidth g font (Some line))
            else Some (font, False)) of
        None \<Rightarrow> None
      | Some (font1, too_long) \<Rightarrow>
          if too_long then
            (case FC_ExplodeBreakingSpace line of
               (word # words, space # spaces) \<Rightarrow>
                 (case wrap_words g font1 width words spaces (word @ space) current of
                    None \<Rightarrow> None
                  | Some (font2, line', current') \<Rightarrow> Some (font2, current' @ [line']))
             | _ \<Rightarrow> None)
          else Some (font1, current @ [line]))"

fun fit_lines ::
  "FC_Globals \<Rightarrow> FC_Font option \<Rightarrow> int \<Rightarrow> byte list list \<Rightarrow> byte list list
     \<Rightarrow> (FC_Font option \<times> byte list list) option" where
  "fit_lines g font width [] current = Some (font, current)"
| "fit_lines g font width (line # iter) current =
     (case fit_line g font width line current of
        None \<Rightarrow> None
      | Some (font1, current') \<Rightarrow> fit_lines g font1 width iter current')"

text \<open>
  \<^verbatim>\<open>FC_GetBufferFitToColumn(font, width, scale, keep_newlines)\<close> on the contents of
  \<^verbatim>\<open>fc_buffer\<close>; \<^verbatim>\<open>scale\<close> is not used by the function. The result is the list of lines.
\<close>

definition FC_GetBufferFitToColumn ::
  "FC_Globals \<Rightarrow> FC_Font option \<Rightarrow> byte list \<Rightarrow> int \<Rightarrow> byte
     \<Rightarrow> (FC_Font option \<times> byte list list) option" where
  "FC_GetBufferFitToColumn g font fc_buffer width keep_newlines =
     fit_lines g font width
       (if keep_newlines \<noteq> 0 then FC_ExplodeAndKeep (c_str fc_buffer) 10
        else FC_Explode (c_str fc_buffer) 10)
       []"

text \<open>Both return \<^verbatim>\<open>Uint16\<close>; the \<^verbatim>\<open>width\<close> of \<^verbatim>\<open>FC_GetColumnHeight\<close> is a \<^verbatim>\<open>Uint16\<close> parameter.\<close>

definition FC_GetLineHeight :: "FC_Font option \<Rightarrow> int" where
  "FC_GetLineHeight font' = (case font' of None \<Rightarrow> 0 | Some font \<Rightarrow> u16 (height font))"

definition FC_GetColumnHeight ::
  "FC_Globals \<Rightarrow> FC_Font option \<Rightarrow> int \<Rightarrow> byte list option \<Rightarrow> (FC_Font option \<times> int) option" where
  "FC_GetColumnHeight g font' width formatted_text =
     (case font' of
        None \<Rightarrow> Some (None, 0)
      | Some font \<Rightarrow>
          (case formatted_text of
             None \<Rightarrow> Some (font', u16 (height font))
           | Some expansion \<Rightarrow>
               if u16 width = 0 then Some (font', u16 (height font))
               else
                 (case FC_GetBufferFitToColumn g font' (FC_EXTRACT_VARARGS g expansion) (u16 width) 0 of
                    None \<Rightarrow> None
                  | Some (font1, ls) \<Rightarrow>
                      Some (font1, u16 (foldl (\<lambda>y iter. y + FC_GetLineHeight font1) 0 ls)))))"

text \<open>
  Fonts for the examples: no TTF source, one cache level, and the glyphs \<open>kgs\<close> inserted
  into a fresh map. \<open>abc_font\<close> has a space of width 5 and the letters a, b, c of width 10.
\<close>

definition layout_font :: "FC_MapNode list \<Rightarrow> FC_Font" where
  "layout_font kgs =
     zeroed_font\<lparr>height := 20,
                 glyphs := (case insert_all (FC_MapCreate FC_DEFAULT_NUM_BUCKETS) kgs of
                              None \<Rightarrow> None | Some m \<Rightarrow> m),
                 last_glyph := \<lparr>rect = \<lparr>rect_x = 1, rect_y = 1, rect_w = 0, rect_h = 20\<rparr>,
                                 cache_level = 0\<rparr>,
                 glyph_cache_size := 3, glyph_cache_count := 1,
                 glyph_cache := [Level (Some \<lparr>tex_w = 240, tex_h = 240\<rparr>), Unset, Unset]\<rparr>"

definition abc_font :: FC_Font where
  "abc_font = layout_font [(0x20, FC_MakeGlyphData 0 3 1 5 20), (0x61, FC_MakeGlyphData 0 10 1 10 20),
                 (0x62, FC_MakeGlyphData 0 22 1 10 20), (0x63, FC_MakeGlyphData 0 34 1 10 20)]"

subsection \<open>Lines that fit\<close>









lemma GetGlyphData_static:
  assumes "ttf_source font = None"
  shows "FC_GetGlyphData g (Some font) cp =
           (case FC_MapFind (glyphs font) cp of
              None \<Rightarrow> None
            | Some None \<Rightarrow> Some (font, 0, None)
            | Some (Some e) \<Rightarrow> Some (font, 1, Some e))"
  using assms by (simp add: FC_GetGlyphData_def get_glyph_with_def split: option.splits)





















subsection \<open>The width that \<^verbatim>\<open>FC_GetWidth\<close> returns\<close>




subsection \<open>When wrapping returns\<close>

text \<open>
  Text that the scan reads without leaving the string: a byte below \<open>0x80\<close> stands alone, a
  byte from \<open>0x80\<close> on is followed by the one, two or three bytes that
  \<^verbatim>\<open>FC_GetCodepointFromUTF8\<close> reads with it, each \<open>0x80\<close> or more. Well-formed UTF-8 is of
  this form.
\<close>

fun utf8_ok :: "byte list \<Rightarrow> bool" where
  "utf8_ok [] = True"
| "utf8_ok (b # rest) =
     (if b < 0x80 then utf8_ok rest
      else (let n = (if b < 0xE0 then 1 else if b < 0xF0 then 2 else 3 :: nat)
            in n \<le> length rest \<and> list_all (\<lambda>x. 0x80 \<le> x) (take n rest) \<and> utf8_ok (drop n rest)))"

text \<open>The glyph map is null, or as \<^verbatim>\<open>FC_MapCreate\<close> and \<^verbatim>\<open>FC_MapInsert\<close> make it.\<close>

definition glyph_map_ok :: "FC_Font \<Rightarrow> bool" where
  "glyph_map_ok font = (case glyphs font of None \<Rightarrow> True | Some m \<Rightarrow> map_ok m)"

lemma decode_at_ascii:
  assumes "b < 0x80"
  shows "decode_at (b # rest) 1 = Some (ucast b, b # rest)"
proof -
  from assms have "b \<le> 0x7F"
    by (simp add: word_less_nat_alt word_le_nat_alt)
  then show ?thesis
    by (simp add: decode_at_def rd_def)
qed

lemma decode_at_lead:
  assumes "\<not> b < 0x80" and "n = (if b < 0xE0 then 1 else if b < 0xF0 then 2 else 3 :: nat)"
    and "n \<le> length rest"
  shows "\<exists>cp. decode_at (b # rest @ t) 1 = Some (cp, drop n (b # rest @ t))"
proof -
  from assms(1) have hi: "\<not> b \<le> 0x7F"
    by (simp add: word_less_nat_alt word_le_nat_alt)
  consider (two) "b < 0xE0" "n = 1" | (three) "\<not> b < 0xE0" "b < 0xF0" "n = 2"
    | (four) "\<not> b < 0xE0" "\<not> b < 0xF0" "n = 3"
    using assms(2) by (auto split: if_splits)
  then show ?thesis
  proof cases
    case two
    with hi assms(3) show ?thesis
      by (cases rest) (simp_all add: decode_at_def rd_def)
  next
    case three
    with assms(3) obtain x1 x2 rest' where "rest = x1 # x2 # rest'"
      by (auto simp: numeral_2_eq_2 Suc_le_length_iff)
    with hi three show ?thesis
      by (simp add: decode_at_def rd_def)
  next
    case four
    with assms(3) obtain x1 x2 x3 rest' where "rest = x1 # x2 # x3 # rest'"
      by (auto simp: numeral_3_eq_3 Suc_le_length_iff)
    with hi four show ?thesis
      by (simp add: decode_at_def rd_def)
  qed
qed

lemma scan_text_total:
  assumes "utf8_ok s"
  shows "\<exists>ts. scan_text (s @ [0]) = Some ts"
  using assms
proof (induction s rule: utf8_ok.induct)
  case 1
  show ?case
    by (simp add: scan_text_end rd_def)
next
  case (2 b rest)
  show ?case
  proof (cases "b < 0x80")
    case True
    with "2.prems" have ok: "utf8_ok rest"
      by simp
    from "2.IH"(1) [OF True ok] obtain ts where ts: "scan_text (rest @ [0]) = Some ts"
      by blast
    have r: "rd ((b # rest) @ [0]) 0 = Some b"
      by (simp add: rd_def)
    consider (stop) "b = 0" | (nl) "b = 10" | (ch) "b \<noteq> 0" "b \<noteq> 10"
      by blast
    then show ?thesis
    proof cases
      case stop
      with r show ?thesis by (simp add: scan_text_end)
    next
      case nl
      with r ts show ?thesis by (simp add: scan_text_newline)
    next
      case ch
      from scan_text_char [OF r ch] ts decode_at_ascii [OF True, of "rest @ [0]"] show ?thesis
        by simp
    qed
  next
    case False
    define n :: nat where "n = (if b < 0xE0 then 1 else if b < 0xF0 then 2 else 3)"
    from "2.prems" False have len: "n \<le> length rest" and ok: "utf8_ok (drop n rest)"
      by (simp_all add: n_def Let_def)
    from "2.IH"(2) [OF False n_def ok] obtain ts where ts: "scan_text (drop n rest @ [0]) = Some ts"
      by blast
    from decode_at_lead [OF False n_def len, of "[0]"] obtain cp where
      d: "decode_at (b # rest @ [0]) 1 = Some (cp, drop n (b # rest @ [0]))"
      by blast
    have next_c: "drop 1 (drop n (b # rest @ [0])) = drop n rest @ [0]"
      using len by simp
    have r: "rd ((b # rest) @ [0]) 0 = Some b"
      by (simp add: rd_def)
    have "b \<noteq> 0" "b \<noteq> 10"
      using False by auto
    from scan_text_char [OF r this] d next_c ts show ?thesis
      by simp
  qed
qed

lemma MapFind_defined:
  assumes "glyph_map_ok font"
  shows "\<exists>r. FC_MapFind (glyphs font) cp = Some r"
  using assms bucket_index_Some(1) [of _ cp]
  by (auto simp: glyph_map_ok_def FC_MapFind_def split: option.splits)




















subsection \<open>The lines of a column\<close>




section \<open>Drawing and the dirty rectangle\<close>

text \<open>
  The drawing functions compute positions in \<^verbatim>\<open>float\<close>. The operations on floats are a
  parameter \<open>ops\<close> of the model: conversion from and to \<^verbatim>\<open>int\<close> and the four operations, with
  nothing assumed about them. The render callback (\<^verbatim>\<open>fc_render_callback\<close>, which
  \<^verbatim>\<open>FC_SetRenderCallback\<close> replaces) is a parameter \<open>cb\<close> too; \<^verbatim>\<open>FC_DefaultRenderCallback\<close> is the
  one the program starts with. What a draw does to the render target is not modelled: the
  result of a drawing function carries, beside the font and the returned rectangle, the
  list of the rectangles that the calls of the callback returned, in the order of the
  calls. \<^verbatim>\<open>FC_AlignEnum\<close> has its three named values.
\<close>

record 'f float_ops =
  f_of_int :: "int \<Rightarrow> 'f"
  f_to_int :: "'f \<Rightarrow> int"
  f_add :: "'f \<Rightarrow> 'f \<Rightarrow> 'f"
  f_sub :: "'f \<Rightarrow> 'f \<Rightarrow> 'f"
  f_mul :: "'f \<Rightarrow> 'f \<Rightarrow> 'f"
  f_div :: "'f \<Rightarrow> 'f \<Rightarrow> 'f"

record 'f FC_Scale =
  scale_x :: 'f
  scale_y :: 'f

datatype FC_AlignEnum = FC_ALIGN_LEFT | FC_ALIGN_CENTER | FC_ALIGN_RIGHT

type_synonym 'f render_callback =
  "SDL_Texture option \<Rightarrow> SDL_Rect \<Rightarrow> SDL_Renderer option \<Rightarrow> int \<Rightarrow> int \<Rightarrow> 'f \<Rightarrow> 'f \<Rightarrow> SDL_Rect"

text \<open>The macros \<^verbatim>\<open>FC_MIN\<close> and \<^verbatim>\<open>FC_MAX\<close> and the union of two rectangles.\<close>

definition FC_MIN :: "int \<Rightarrow> int \<Rightarrow> int" where
  "FC_MIN a b = (if a < b then a else b)"

definition FC_MAX :: "int \<Rightarrow> int \<Rightarrow> int" where
  "FC_MAX a b = (if a > b then a else b)"

definition SDL_RectUnion :: "SDL_Rect \<Rightarrow> SDL_Rect \<Rightarrow> SDL_Rect" where
  "SDL_RectUnion A B =
     (let x = FC_MIN (rect_x A) (rect_x B);
          y = FC_MIN (rect_y A) (rect_y B);
          x2 = FC_MAX (rect_x A + rect_w A) (rect_x B + rect_w B);
          y2 = FC_MAX (rect_y A + rect_h A) (rect_y B + rect_h B)
      in \<lparr>rect_x = x, rect_y = y, rect_w = FC_MAX 0 (x2 - x), rect_h = FC_MAX 0 (y2 - y)\<rparr>)"

text \<open>
  \<^verbatim>\<open>FC_DefaultRenderCallback\<close> returns \<^verbatim>\<open>{x, y, w, h}\<close> with \<^verbatim>\<open>float w = srcrect->w * xscale\<close> and
  \<^verbatim>\<open>h\<close> likewise, converted to \<^verbatim>\<open>int\<close>.
\<close>

definition FC_DefaultRenderCallback :: "'f float_ops \<Rightarrow> 'f render_callback" where
  "FC_DefaultRenderCallback ops src srcrect dest x y xscale yscale =
     (let w = f_mul ops (f_of_int ops (rect_w srcrect)) xscale;
          h = f_mul ops (f_of_int ops (rect_h srcrect)) yscale
      in \<lparr>rect_x = x, rect_y = y, rect_w = f_to_int ops w, rect_h = f_to_int ops h\<rparr>)"

text \<open>
  The lookup in the loop of \<^verbatim>\<open>FC_RenderLeft\<close>: the glyph of the codepoint, or else
  \<^verbatim>\<open>codepoint = ' '\<close> and the glyph of the space, or else no glyph (the character is skipped).
\<close>

definition render_lookup ::
  "FC_Globals \<Rightarrow> FC_Font \<Rightarrow> Uint32 \<Rightarrow> (FC_Font \<times> Uint32 \<times> FC_GlyphData option) option" where
  "render_lookup g font codepoint =
     (case FC_GetGlyphData g (Some font) codepoint of
        None \<Rightarrow> None
      | Some (font1, ok1, e1) \<Rightarrow>
          if ok1 \<noteq> 0 then
            (case e1 of None \<Rightarrow> None | Some glyph \<Rightarrow> Some (font1, codepoint, Some glyph))
          else
            (case FC_GetGlyphData g (Some font1) 32 of
               None \<Rightarrow> None
             | Some (font2, ok2, e2) \<Rightarrow>
                 if ok2 \<noteq> 0 then
                   (case e2 of None \<Rightarrow> None | Some glyph \<Rightarrow> Some (font2, 32, Some glyph))
                 else Some (font2, 32, None)))"

lemma rd_Some_nonempty: "rd c 0 = Some b \<Longrightarrow> length (drop 1 c) < length c"
  by (cases c) (auto simp: rd_def)

lemma decode_at_shorter:
  "decode_at c a = Some (cp, c') \<Longrightarrow> length (drop 1 c') < length c"
  using decode_at_length [of c a cp c'] by (cases c) auto

text \<open>
  The loop of \<^verbatim>\<open>FC_RenderLeft\<close>. A space moves \<^verbatim>\<open>destX\<close> and draws nothing. For any other glyph
  the callback is called on the cache level of the glyph, at \<^verbatim>\<open>destX\<close> and \<^verbatim>\<open>destY\<close> converted to
  \<^verbatim>\<open>int\<close>, and \<^verbatim>\<open>dirtyRect\<close> becomes the returned rectangle when its width or height is 0 and
  its union with the returned rectangle otherwise. \<open>draws\<close> collects the returned rectangles.
\<close>

function render_loop ::
  "'f float_ops \<Rightarrow> 'f render_callback \<Rightarrow> FC_Globals \<Rightarrow> SDL_Renderer option \<Rightarrow> 'f FC_Scale
     \<Rightarrow> int \<Rightarrow> 'f \<Rightarrow> 'f \<Rightarrow> 'f
     \<Rightarrow> FC_Font \<Rightarrow> byte list \<Rightarrow> 'f \<Rightarrow> 'f \<Rightarrow> SDL_Rect \<Rightarrow> SDL_Rect list
     \<Rightarrow> (FC_Font \<times> SDL_Rect \<times> SDL_Rect list) option" where
  "render_loop ops cb g dest scale newlineX destH destLineSpacing destLetterSpacing
     font c destX destY dirtyRect draws =
     (case rd c 0 of
        None \<Rightarrow> None
      | Some b \<Rightarrow>
          if b = 0 then Some (font, dirtyRect, draws)
          else if b = 10 then
            render_loop ops cb g dest scale newlineX destH destLineSpacing destLetterSpacing
              font (drop 1 c) (f_of_int ops newlineX)
              (f_add ops destY (f_add ops destH destLineSpacing)) dirtyRect draws
          else
            (case decode_at c 1 of
               None \<Rightarrow> None
             | Some (codepoint, c') \<Rightarrow>
                 (case render_lookup g font codepoint of
                    None \<Rightarrow> None
                  | Some (font1, codepoint', None) \<Rightarrow>
                      render_loop ops cb g dest scale newlineX destH destLineSpacing
                        destLetterSpacing font1 (drop 1 c') destX destY dirtyRect draws
                  | Some (font1, codepoint', Some glyph) \<Rightarrow>
                      if codepoint' = 32 then
                        render_loop ops cb g dest scale newlineX destH destLineSpacing
                          destLetterSpacing font1 (drop 1 c')
                          (f_add ops destX
                             (f_add ops (f_mul ops (f_of_int ops (rect_w (rect glyph))) (scale_x scale))
                                destLetterSpacing))
                          destY dirtyRect draws
                      else
                        (case FC_GetGlyphCacheLevel (Some font1) (cache_level glyph) of
                           None \<Rightarrow> None
                         | Some texture \<Rightarrow>
                             (let srcRect = rect glyph;
                                  dstRect = cb texture srcRect dest (f_to_int ops destX)
                                               (f_to_int ops destY) (scale_x scale) (scale_y scale)
                              in render_loop ops cb g dest scale newlineX destH destLineSpacing
                                   destLetterSpacing font1 (drop 1 c')
                                   (f_add ops destX
                                      (f_add ops
                                         (f_mul ops (f_of_int ops (rect_w (rect glyph))) (scale_x scale))
                                         destLetterSpacing))
                                   destY
                                   (if rect_w dirtyRect = 0 \<or> rect_h dirtyRect = 0 then dstRect
                                    else SDL_RectUnion dirtyRect dstRect)
                                   (draws @ [dstRect]))))))"
  by pat_completeness auto
termination
  apply (relation "measure (\<lambda>(ops, cb, g, dest, scale, newlineX, destH, destLineSpacing,
                      destLetterSpacing, font, c, rest). length c)")
      apply (auto dest: rd_Some_nonempty decode_at_shorter)
  done

declare render_loop.simps [simp del]

text \<open>
  \<^verbatim>\<open>FC_RenderLeft(font, dest, x, y, scale, text)\<close>. It returns \<^verbatim>\<open>{x, y, 0, 0}\<close> at once for a null
  font, a null text, a font without cache levels or a null \<^verbatim>\<open>dest\<close>.
\<close>

definition FC_RenderLeft ::
  "'f float_ops \<Rightarrow> 'f render_callback \<Rightarrow> FC_Globals \<Rightarrow> FC_Font option \<Rightarrow> SDL_Renderer option
     \<Rightarrow> int \<Rightarrow> int \<Rightarrow> 'f FC_Scale \<Rightarrow> byte list option
     \<Rightarrow> (FC_Font option \<times> SDL_Rect \<times> SDL_Rect list) option" where
  "FC_RenderLeft ops cb g font' dest x y scale text' =
     (let dirtyRect = \<lparr>rect_x = x, rect_y = y, rect_w = 0, rect_h = 0\<rparr>
      in case font' of
           None \<Rightarrow> Some (None, dirtyRect, [])
         | Some font \<Rightarrow>
             (let destH = f_mul ops (f_of_int ops (height font)) (scale_y scale);
                  destLineSpacing = f_mul ops (f_of_int ops (lineSpacing font)) (scale_y scale);
                  destLetterSpacing = f_mul ops (f_of_int ops (letterSpacing font)) (scale_x scale)
              in case text' of
                   None \<Rightarrow> Some (font', dirtyRect, [])
                 | Some c \<Rightarrow>
                     if glyph_cache_count font = 0 \<or> dest = None then Some (font', dirtyRect, [])
                     else
                       map_option (\<lambda>(font1, dirty, draws). (Some font1, dirty, draws))
                         (render_loop ops cb g dest scale x destH destLineSpacing destLetterSpacing
                            font c (f_of_int ops x) (f_of_int ops y) dirtyRect [])))"

text \<open>
  \<^verbatim>\<open>set_color_for_all_caches\<close> reads the cache levels below \<^verbatim>\<open>glyph_cache_count\<close> and sets their
  colour, which the model does not hold: what remains is that the reads are defined.
\<close>

definition set_color_for_all_caches :: "FC_Font \<Rightarrow> unit option" where
  "set_color_for_all_caches font =
     (if list_all (\<lambda>i. FC_GetGlyphCacheLevel (Some font) (int i) \<noteq> None)
           [0 ..< nat (glyph_cache_count font)]
      then Some () else None)"

text \<open>The scale \<^verbatim>\<open>{1, 1}\<close>, and \<^verbatim>\<open>FC_Draw(font, dest, x, y, formatted_text, ...)\<close>.\<close>

definition unit_scale :: "'f float_ops \<Rightarrow> 'f FC_Scale" where
  "unit_scale ops = \<lparr>scale_x = f_of_int ops 1, scale_y = f_of_int ops 1\<rparr>"

definition FC_Draw ::
  "'f float_ops \<Rightarrow> 'f render_callback \<Rightarrow> FC_Globals \<Rightarrow> FC_Font option \<Rightarrow> SDL_Renderer option
     \<Rightarrow> int \<Rightarrow> int \<Rightarrow> byte list option
     \<Rightarrow> (FC_Font option \<times> SDL_Rect \<times> SDL_Rect list) option" where
  "FC_Draw ops cb g font' dest x y formatted_text =
     (case (formatted_text, font') of
        (Some expansion, Some font) \<Rightarrow>
          (case set_color_for_all_caches font of
             None \<Rightarrow> None
           | Some u \<Rightarrow>
               FC_RenderLeft ops cb g font' dest x y (unit_scale ops)
                 (Some (FC_EXTRACT_VARARGS g expansion)))
      | _ \<Rightarrow> Some (font', \<lparr>rect_x = x, rect_y = y, rect_w = 0, rect_h = 0\<rparr>, []))"

text \<open>
  \<^verbatim>\<open>FC_RenderCenter\<close> and \<^verbatim>\<open>FC_RenderRight\<close> are the same loop but for the place of a line:
  \<^verbatim>\<open>x - scale.x*FC_GetWidth(font, "%s", str)/2\<close> and \<^verbatim>\<open>x - scale.x*FC_GetWidth(font, "%s", str)\<close>,
  computed in \<^verbatim>\<open>float\<close> and converted to the \<^verbatim>\<open>int\<close> parameter of \<^verbatim>\<open>FC_RenderLeft\<close>.
  \<open>render_placed\<close> is the statement
  \<^verbatim>\<open>result = SDL_RectUnion(FC_RenderLeft(font, dest, place, y, scale, str), result)\<close>, where the
  width is measured before the line is drawn. \<open>render_lines\<close> is the loop over the copy of
  the text: \<open>str\<close> holds the bytes of the line so far, and at a newline the line is drawn
  and \<^verbatim>\<open>y += scale.y*font->height\<close>; the last line is drawn after the loop.
\<close>

definition place_center :: "'f float_ops \<Rightarrow> 'f FC_Scale \<Rightarrow> int \<Rightarrow> int \<Rightarrow> int" where
  "place_center ops scale x w =
     f_to_int ops (f_sub ops (f_of_int ops x)
                     (f_div ops (f_mul ops (scale_x scale) (f_of_int ops w)) (f_of_int ops 2)))"

definition place_right :: "'f float_ops \<Rightarrow> 'f FC_Scale \<Rightarrow> int \<Rightarrow> int \<Rightarrow> int" where
  "place_right ops scale x w =
     f_to_int ops (f_sub ops (f_of_int ops x) (f_mul ops (scale_x scale) (f_of_int ops w)))"

definition render_placed ::
  "'f float_ops \<Rightarrow> 'f render_callback \<Rightarrow> FC_Globals \<Rightarrow> (int \<Rightarrow> int \<Rightarrow> int) \<Rightarrow> FC_Font
     \<Rightarrow> SDL_Renderer option \<Rightarrow> int \<Rightarrow> int \<Rightarrow> 'f FC_Scale \<Rightarrow> byte list \<Rightarrow> SDL_Rect
     \<Rightarrow> (FC_Font \<times> SDL_Rect \<times> SDL_Rect list) option" where
  "render_placed ops cb g place font dest x y scale str result =
     (case FC_GetWidth g (Some font) (Some str) of
        Some (Some font1, w) \<Rightarrow>
          (case FC_RenderLeft ops cb g (Some font1) dest (place x w) y scale (Some (str @ [0])) of
             Some (Some font2, r, draws) \<Rightarrow> Some (font2, SDL_RectUnion r result, draws)
           | _ \<Rightarrow> None)
      | _ \<Rightarrow> None)"

fun render_lines ::
  "'f float_ops \<Rightarrow> 'f render_callback \<Rightarrow> FC_Globals \<Rightarrow> (int \<Rightarrow> int \<Rightarrow> int) \<Rightarrow> FC_Font
     \<Rightarrow> SDL_Renderer option \<Rightarrow> int \<Rightarrow> int \<Rightarrow> 'f FC_Scale \<Rightarrow> byte list \<Rightarrow> byte list
     \<Rightarrow> SDL_Rect \<Rightarrow> SDL_Rect list \<Rightarrow> (FC_Font \<times> SDL_Rect \<times> SDL_Rect list) option" where
  "render_lines ops cb g place font dest x y scale str [] result draws =
     (case render_placed ops cb g place font dest x y scale str result of
        None \<Rightarrow> None
      | Some (font1, result1, ds) \<Rightarrow> Some (font1, result1, draws @ ds))"
| "render_lines ops cb g place font dest x y scale str (b # c) result draws =
     (if b = 10 then
        (case render_placed ops cb g place font dest x y scale str result of
           None \<Rightarrow> None
         | Some (font1, result1, ds) \<Rightarrow>
             render_lines ops cb g place font1 dest x
               (f_to_int ops (f_add ops (f_of_int ops y)
                                (f_mul ops (scale_y scale) (f_of_int ops (height font1)))))
               scale [] c result1 (draws @ ds))
      else render_lines ops cb g place font dest x y scale (str @ [b]) c result draws)"

text \<open>
  Both functions copy the text with \<^verbatim>\<open>U8_strdup\<close>, which reads it up to its terminator:
  without one the read leaves the memory of the text.
\<close>

definition FC_RenderCenter ::
  "'f float_ops \<Rightarrow> 'f render_callback \<Rightarrow> FC_Globals \<Rightarrow> FC_Font option \<Rightarrow> SDL_Renderer option
     \<Rightarrow> int \<Rightarrow> int \<Rightarrow> 'f FC_Scale \<Rightarrow> byte list option
     \<Rightarrow> (FC_Font option \<times> SDL_Rect \<times> SDL_Rect list) option" where
  "FC_RenderCenter ops cb g font' dest x y scale text' =
     (case (text', font') of
        (Some text, Some font) \<Rightarrow>
          if 0 \<in> set text then
            map_option (\<lambda>(font1, result, draws). (Some font1, result, draws))
              (render_lines ops cb g (place_center ops scale) font dest x y scale [] (c_str text)
                 \<lparr>rect_x = x, rect_y = y, rect_w = 0, rect_h = 0\<rparr> [])
          else None
      | _ \<Rightarrow> Some (font', \<lparr>rect_x = x, rect_y = y, rect_w = 0, rect_h = 0\<rparr>, []))"

definition FC_RenderRight ::
  "'f float_ops \<Rightarrow> 'f render_callback \<Rightarrow> FC_Globals \<Rightarrow> FC_Font option \<Rightarrow> SDL_Renderer option
     \<Rightarrow> int \<Rightarrow> int \<Rightarrow> 'f FC_Scale \<Rightarrow> byte list option
     \<Rightarrow> (FC_Font option \<times> SDL_Rect \<times> SDL_Rect list) option" where
  "FC_RenderRight ops cb g font' dest x y scale text' =
     (case (text', font') of
        (Some text, Some font) \<Rightarrow>
          if 0 \<in> set text then
            map_option (\<lambda>(font1, result, draws). (Some font1, result, draws))
              (render_lines ops cb g (place_right ops scale) font dest x y scale [] (c_str text)
                 \<lparr>rect_x = x, rect_y = y, rect_w = 0, rect_h = 0\<rparr> [])
          else None
      | _ \<Rightarrow> Some (font', \<lparr>rect_x = x, rect_y = y, rect_w = 0, rect_h = 0\<rparr>, []))"

definition FC_DrawAlign ::
  "'f float_ops \<Rightarrow> 'f render_callback \<Rightarrow> FC_Globals \<Rightarrow> FC_Font option \<Rightarrow> SDL_Renderer option
     \<Rightarrow> int \<Rightarrow> int \<Rightarrow> FC_AlignEnum \<Rightarrow> byte list option
     \<Rightarrow> (FC_Font option \<times> SDL_Rect \<times> SDL_Rect list) option" where
  "FC_DrawAlign ops cb g font' dest x y align formatted_text =
     (case (formatted_text, font') of
        (Some expansion, Some font) \<Rightarrow>
          (case set_color_for_all_caches font of
             None \<Rightarrow> None
           | Some u \<Rightarrow>
               (case align of
                  FC_ALIGN_LEFT \<Rightarrow>
                    FC_RenderLeft ops cb g font' dest x y (unit_scale ops)
                      (Some (FC_EXTRACT_VARARGS g expansion))
                | FC_ALIGN_CENTER \<Rightarrow>
                    FC_RenderCenter ops cb g font' dest x y (unit_scale ops)
                      (Some (FC_EXTRACT_VARARGS g expansion))
                | FC_ALIGN_RIGHT \<Rightarrow>
                    FC_RenderRight ops cb g font' dest x y (unit_scale ops)
                      (Some (FC_EXTRACT_VARARGS g expansion))))
      | _ \<Rightarrow> Some (font', \<lparr>rect_x = x, rect_y = y, rect_w = 0, rect_h = 0\<rparr>, []))"

text \<open>C division of ints truncates toward zero.\<close>

definition c_div :: "int \<Rightarrow> int \<Rightarrow> int" where
  "c_div a b = sgn a * sgn b * (\<bar>a\<bar> div \<bar>b\<bar>)"

text \<open>
  \<^verbatim>\<open>FC_RenderAlign\<close> returns nothing; the model keeps the font and the rectangles drawn.
  \<^verbatim>\<open>FC_DrawColumnFromBuffer\<close> wraps the buffer at the width of the box and draws the lines one
  below the other, \<^verbatim>\<open>FC_GetLineHeight(font)\<close> apart; \<^verbatim>\<open>*total_height\<close> is its second result.
  \<^verbatim>\<open>FC_DrawColumn\<close> returns \<^verbatim>\<open>{box.x, box.y, width, total_height}\<close>.
\<close>

definition FC_RenderAlign ::
  "'f float_ops \<Rightarrow> 'f render_callback \<Rightarrow> FC_Globals \<Rightarrow> FC_Font option \<Rightarrow> SDL_Renderer option
     \<Rightarrow> int \<Rightarrow> int \<Rightarrow> int \<Rightarrow> 'f FC_Scale \<Rightarrow> FC_AlignEnum \<Rightarrow> byte list option
     \<Rightarrow> (FC_Font option \<times> SDL_Rect list) option" where
  "FC_RenderAlign ops cb g font dest x y width scale align text' =
     map_option (\<lambda>(font1, r, draws). (font1, draws))
       (case align of
          FC_ALIGN_LEFT \<Rightarrow> FC_RenderLeft ops cb g font dest x y scale text'
        | FC_ALIGN_CENTER \<Rightarrow> FC_RenderCenter ops cb g font dest (x + c_div width 2) y scale text'
        | FC_ALIGN_RIGHT \<Rightarrow> FC_RenderRight ops cb g font dest (x + width) y scale text')"

fun draw_column_lines ::
  "'f float_ops \<Rightarrow> 'f render_callback \<Rightarrow> FC_Globals \<Rightarrow> FC_Font option \<Rightarrow> SDL_Renderer option
     \<Rightarrow> SDL_Rect \<Rightarrow> 'f FC_Scale \<Rightarrow> FC_AlignEnum \<Rightarrow> byte list list \<Rightarrow> int \<Rightarrow> SDL_Rect list
     \<Rightarrow> (FC_Font option \<times> int \<times> SDL_Rect list) option" where
  "draw_column_lines ops cb g font dest box scale align [] y draws = Some (font, y, draws)"
| "draw_column_lines ops cb g font dest box scale align (line # iter) y draws =
     (case FC_RenderAlign ops cb g font dest (rect_x box) y (rect_w box) scale align
             (Some (line @ [0])) of
        None \<Rightarrow> None
      | Some (font1, ds) \<Rightarrow>
          draw_column_lines ops cb g font1 dest box scale align iter
            (y + FC_GetLineHeight font1) (draws @ ds))"

definition FC_DrawColumnFromBuffer ::
  "'f float_ops \<Rightarrow> 'f render_callback \<Rightarrow> FC_Globals \<Rightarrow> FC_Font option \<Rightarrow> SDL_Renderer option
     \<Rightarrow> byte list \<Rightarrow> SDL_Rect \<Rightarrow> 'f FC_Scale \<Rightarrow> FC_AlignEnum
     \<Rightarrow> (FC_Font option \<times> int \<times> SDL_Rect list) option" where
  "FC_DrawColumnFromBuffer ops cb g font dest fc_buffer box scale align =
     (case FC_GetBufferFitToColumn g font fc_buffer (rect_w box) 0 of
        None \<Rightarrow> None
      | Some (font1, ls) \<Rightarrow>
          (case draw_column_lines ops cb g font1 dest box scale align ls (rect_y box) [] of
             None \<Rightarrow> None
           | Some (font2, y, draws) \<Rightarrow> Some (font2, y - rect_y box, draws)))"

definition FC_DrawColumn ::
  "'f float_ops \<Rightarrow> 'f render_callback \<Rightarrow> FC_Globals \<Rightarrow> FC_Font option \<Rightarrow> SDL_Renderer option
     \<Rightarrow> int \<Rightarrow> int \<Rightarrow> int \<Rightarrow> byte list option
     \<Rightarrow> (FC_Font option \<times> SDL_Rect \<times> SDL_Rect list) option" where
  "FC_DrawColumn ops cb g font' dest x y width formatted_text =
     (let box = \<lparr>rect_x = x, rect_y = y, rect_w = u16 width, rect_h = 0\<rparr>
      in case (formatted_text, font') of
           (Some expansion, Some font) \<Rightarrow>
             (case set_color_for_all_caches font of
                None \<Rightarrow> None
              | Some u \<Rightarrow>
                  (case FC_DrawColumnFromBuffer ops cb g font' dest (FC_EXTRACT_VARARGS g expansion)
                          box (unit_scale ops) FC_ALIGN_LEFT of
                     None \<Rightarrow> None
                   | Some (font1, total_height, draws) \<Rightarrow>
                       Some (font1,
                             \<lparr>rect_x = rect_x box, rect_y = rect_y box, rect_w = u16 width,
                              rect_h = total_height\<rparr>, draws)))
         | _ \<Rightarrow> Some (font', \<lparr>rect_x = x, rect_y = y, rect_w = 0, rect_h = 0\<rparr>, []))"

text \<open>
  For the examples: integers in the place of floats. The examples draw at scale 1 and at
  small coordinates, where every float of the computation is an integer and the float
  operations are exact; the division is used by the centred place alone. \<open>screen\<close> is a
  render target.
\<close>

definition int_ops :: "int float_ops" where
  "int_ops = \<lparr>f_of_int = (\<lambda>i. i), f_to_int = (\<lambda>i. i), f_add = (+), f_sub = (-), f_mul = (*),
              f_div = c_div\<rparr>"

definition screen :: "SDL_Renderer option" where
  "screen = Some \<lparr>tex_budget = 0\<rparr>"

subsection \<open>What the returned rectangle encloses\<close>

text \<open>
  \<open>has_area\<close>: positive width and height. \<open>encloses D R\<close>: the corners of \<open>R\<close> lie within \<open>D\<close>.
  \<open>seed_or_union\<close> is the update of \<^verbatim>\<open>dirtyRect\<close> in the loop of \<^verbatim>\<open>FC_RenderLeft\<close>.
\<close>

definition has_area :: "SDL_Rect \<Rightarrow> bool" where
  "has_area R \<longleftrightarrow> 0 < rect_w R \<and> 0 < rect_h R"

definition encloses :: "SDL_Rect \<Rightarrow> SDL_Rect \<Rightarrow> bool" where
  "encloses D R \<longleftrightarrow>
     rect_x D \<le> rect_x R \<and> rect_y D \<le> rect_y R
     \<and> rect_x R + rect_w R \<le> rect_x D + rect_w D
     \<and> rect_y R + rect_h R \<le> rect_y D + rect_h D"

definition seed_or_union :: "SDL_Rect \<Rightarrow> SDL_Rect \<Rightarrow> SDL_Rect" where
  "seed_or_union dirtyRect dstRect =
     (if rect_w dirtyRect = 0 \<or> rect_h dirtyRect = 0 then dstRect
      else SDL_RectUnion dirtyRect dstRect)"

definition covered :: "SDL_Rect \<Rightarrow> SDL_Rect list \<Rightarrow> bool" where
  "covered D rs \<longleftrightarrow>
     (\<forall>R \<in> set rs. has_area R \<longrightarrow> encloses D R) \<and> ((\<exists>R \<in> set rs. has_area R) \<longrightarrow> has_area D)"

lemma render_loop_trace:
  assumes "render_loop ops cb g dest scale nX dH dLS dLt font c destX destY dirty draws
             = Some (font', dirty', draws')"
  shows "\<exists>new. draws' = draws @ new \<and> dirty' = foldl seed_or_union dirty new"
  using assms
proof (induction "length c" arbitrary: c font destX destY dirty draws rule: less_induct)
  case less
  note run = less.prems
  from run obtain b where b: "rd c 0 = Some b"
    by (subst (asm) render_loop.simps) (auto split: option.splits)
  show ?case
  proof (cases "b = 0")
    case True
    with run b have "dirty' = dirty \<and> draws' = draws"
      by (subst (asm) render_loop.simps) simp
    then show ?thesis by simp
  next
    case nz: False
    show ?thesis
    proof (cases "b = 10")
      case True
      with run b nz
      have "render_loop ops cb g dest scale nX dH dLS dLt font (drop 1 c) (f_of_int ops nX)
              (f_add ops destY (f_add ops dH dLS)) dirty draws = Some (font', dirty', draws')"
        by (subst (asm) render_loop.simps) simp
      from less.hyps [OF rd_Some_nonempty [OF b] this] show ?thesis .
    next
      case nn: False
      from run b nz nn obtain codepoint c' where d: "decode_at c 1 = Some (codepoint, c')"
        by (subst (asm) render_loop.simps) (auto split: option.splits)
      from run b nz nn d obtain font1 cp' e where
        l: "render_lookup g font codepoint = Some (font1, cp', e)"
        by (subst (asm) render_loop.simps) (auto split: option.splits)
      note short = decode_at_shorter [OF d]
      show ?thesis
      proof (cases e)
        case None
        with run b nz nn d l
        have "render_loop ops cb g dest scale nX dH dLS dLt font1 (drop 1 c') destX destY dirty draws
                = Some (font', dirty', draws')"
          by (subst (asm) render_loop.simps) simp
        from less.hyps [OF short this] show ?thesis .
      next
        case (Some glyph)
        show ?thesis
        proof (cases "cp' = 32")
          case True
          with run b nz nn d l Some
          have "render_loop ops cb g dest scale nX dH dLS dLt font1 (drop 1 c')
                  (f_add ops destX
                     (f_add ops (f_mul ops (f_of_int ops (rect_w (rect glyph))) (scale_x scale)) dLt))
                  destY dirty draws = Some (font', dirty', draws')"
            by (subst (asm) render_loop.simps) simp
          from less.hyps [OF short this] show ?thesis .
        next
          case ns: False
          from run b nz nn d l Some ns obtain texture where
            t: "FC_GetGlyphCacheLevel (Some font1) (cache_level glyph) = Some texture"
            by (subst (asm) render_loop.simps) (auto split: option.splits)
          define dstRect where
            "dstRect = cb texture (rect glyph) dest (f_to_int ops destX) (f_to_int ops destY)
                          (scale_x scale) (scale_y scale)"
          from run b nz nn d l Some ns t
          have "render_loop ops cb g dest scale nX dH dLS dLt font1 (drop 1 c')
                  (f_add ops destX
                     (f_add ops (f_mul ops (f_of_int ops (rect_w (rect glyph))) (scale_x scale)) dLt))
                  destY (seed_or_union dirty dstRect) (draws @ [dstRect])
                  = Some (font', dirty', draws')"
            by (subst (asm) render_loop.simps) (simp add: Let_def seed_or_union_def dstRect_def)
          from less.hyps [OF short this] obtain new where
            "draws' = (draws @ [dstRect]) @ new"
            "dirty' = foldl seed_or_union (seed_or_union dirty dstRect) new"
            by blast
          then have "draws' = draws @ (dstRect # new) \<and> dirty' = foldl seed_or_union dirty (dstRect # new)"
            by simp
          then show ?thesis by blast
        qed
      qed
    qed
  qed
qed

lemma RectUnion_origin:
  "rect_x (SDL_RectUnion A B) \<le> rect_x A" "rect_x (SDL_RectUnion A B) \<le> rect_x B"
  "rect_y (SDL_RectUnion A B) \<le> rect_y A" "rect_y (SDL_RectUnion A B) \<le> rect_y B"
  by (simp_all add: SDL_RectUnion_def Let_def FC_MIN_def)

lemma RectUnion_corner:
  "rect_x A + rect_w A \<le> rect_x (SDL_RectUnion A B) + rect_w (SDL_RectUnion A B)"
  "rect_x B + rect_w B \<le> rect_x (SDL_RectUnion A B) + rect_w (SDL_RectUnion A B)"
  "rect_y A + rect_h A \<le> rect_y (SDL_RectUnion A B) + rect_h (SDL_RectUnion A B)"
  "rect_y B + rect_h B \<le> rect_y (SDL_RectUnion A B) + rect_h (SDL_RectUnion A B)"
  by (simp_all add: SDL_RectUnion_def Let_def FC_MAX_def)

lemma union_encloses:
  assumes "encloses A R \<or> encloses B R"
  shows "encloses (SDL_RectUnion A B) R"
  using assms
proof
  assume "encloses A R"
  with RectUnion_origin(1,3) [where A = A and B = B] RectUnion_corner(1,3) [where A = A and B = B] show ?thesis
    unfolding encloses_def by linarith
next
  assume "encloses B R"
  with RectUnion_origin(2,4) [where A = A and B = B] RectUnion_corner(2,4) [where A = A and B = B] show ?thesis
    unfolding encloses_def by linarith
qed

lemma union_has_area:
  assumes "has_area A \<or> has_area B"
  shows "has_area (SDL_RectUnion A B)"
  using assms
proof
  assume "has_area A"
  with RectUnion_origin(1,3) [where A = A and B = B] RectUnion_corner(1,3) [where A = A and B = B] show ?thesis
    unfolding has_area_def by linarith
next
  assume "has_area B"
  with RectUnion_origin(2,4) [where A = A and B = B] RectUnion_corner(2,4) [where A = A and B = B] show ?thesis
    unfolding has_area_def by linarith
qed

lemma covered_empty: "covered D []"
  by (simp add: covered_def)

lemma covered_union:
  assumes "covered A as" and "covered B bs"
  shows "covered (SDL_RectUnion A B) (bs @ as)"
  using assms union_encloses [of A _ B] union_has_area [of A B]
  unfolding covered_def by (metis Un_iff set_append)

lemma encloses_refl: "encloses R R"
  by (simp add: encloses_def)

lemma covered_step:
  assumes "covered D rs"
  shows "covered (seed_or_union D R) (rs @ [R])"
proof (cases "rect_w D = 0 \<or> rect_h D = 0")
  case True
  then have "\<not> has_area D"
    by (auto simp: has_area_def)
  with assms have "\<forall>R' \<in> set rs. \<not> has_area R'"
    by (auto simp: covered_def)
  with True show ?thesis
    by (auto simp: covered_def seed_or_union_def encloses_refl)
next
  case False
  have "covered R [R]"
    by (simp add: covered_def encloses_refl)
  from covered_union [OF assms this] False show ?thesis
    by (simp add: seed_or_union_def covered_def)
qed

lemma covered_foldl:
  assumes "covered D rs"
  shows "covered (foldl seed_or_union D new) (rs @ new)"
  using assms
proof (induction new arbitrary: D rs)
  case Nil
  then show ?case by simp
next
  case (Cons R new)
  from Cons.IH [OF covered_step [OF Cons.prems, of R]] show ?case
    by simp
qed

lemma RenderLeft_trace:
  assumes "FC_RenderLeft ops cb g font dest x y scale text' = Some (font', dirty, draws)"
  shows "dirty = foldl seed_or_union \<lparr>rect_x = x, rect_y = y, rect_w = 0, rect_h = 0\<rparr> draws"
proof -
  let ?seed = "\<lparr>rect_x = x, rect_y = y, rect_w = 0, rect_h = 0\<rparr>"
  consider (early) "dirty = ?seed" "draws = []"
    | (loop) f c nX dH dLS dLt dX dY f1 where
        "render_loop ops cb g dest scale nX dH dLS dLt f c dX dY ?seed [] = Some (f1, dirty, draws)"
    using assms
    by (auto simp: FC_RenderLeft_def Let_def split: option.splits if_splits)
  then show ?thesis
  proof cases
    case early
    then show ?thesis by simp
  next
    case loop
    from render_loop_trace [OF loop] show ?thesis by simp
  qed
qed

lemma RenderLeft_covered:
  assumes "FC_RenderLeft ops cb g font dest x y scale text' = Some (font', dirty, draws)"
  shows "covered dirty draws"
  using covered_foldl [OF covered_empty, of "\<lparr>rect_x = x, rect_y = y, rect_w = 0, rect_h = 0\<rparr>" draws]
    RenderLeft_trace [OF assms] by simp

lemma render_placed_covered:
  assumes "covered result draws"
    and "render_placed ops cb g place font dest x y scale str result = Some (font', result', ds)"
  shows "covered result' (draws @ ds)"
proof -
  from assms(2) obtain font1 w font2 r where
    "FC_RenderLeft ops cb g (Some font1) dest (place x w) y scale (Some (str @ [0]))
       = Some (Some font2, r, ds)"
    and r: "result' = SDL_RectUnion r result"
    by (auto simp: render_placed_def split: option.splits)
  from covered_union [OF RenderLeft_covered [OF this(1)] assms(1)] r show ?thesis
    by simp
qed

lemma render_lines_covered:
  assumes "covered result draws"
    and "render_lines ops cb g place font dest x y scale str c result draws
           = Some (font', result', draws')"
  shows "covered result' draws'"
  using assms
proof (induction c arbitrary: font y str result draws)
  case Nil
  then obtain font1 ds where
    p: "render_placed ops cb g place font dest x y scale str result = Some (font1, result', ds)"
    and d: "draws' = draws @ ds"
    by (auto split: option.splits)
  from render_placed_covered [OF Nil.prems(1) p] d show ?case
    by simp
next
  case (Cons b c)
  show ?case
  proof (cases "b = 10")
    case True
    with Cons.prems(2) obtain font1 result1 ds where
      p: "render_placed ops cb g place font dest x y scale str result = Some (font1, result1, ds)"
      and more: "render_lines ops cb g place font1 dest x
               (f_to_int ops (f_add ops (f_of_int ops y)
                                (f_mul ops (scale_y scale) (f_of_int ops (height font1)))))
               scale [] c result1 (draws @ ds) = Some (font', result', draws')"
      by (auto split: option.splits)
    from Cons.IH [OF render_placed_covered [OF Cons.prems(1) p] more] show ?thesis .
  next
    case False
    with Cons.prems(2)
    have "render_lines ops cb g place font dest x y scale (str @ [b]) c result draws
            = Some (font', result', draws')"
      by simp
    from Cons.IH [OF Cons.prems(1) this] show ?thesis .
  qed
qed

lemma RenderCenter_covered:
  assumes "FC_RenderCenter ops cb g font dest x y scale text' = Some (font', dirty, draws)"
  shows "covered dirty draws"
proof -
  let ?seed = "\<lparr>rect_x = x, rect_y = y, rect_w = 0, rect_h = 0\<rparr>"
  consider (early) "draws = []"
    | (loop) f c f1 where
        "render_lines ops cb g (place_center ops scale) f dest x y scale [] c ?seed []
           = Some (f1, dirty, draws)"
    using assms
    by (auto simp: FC_RenderCenter_def split: option.splits if_splits)
  then show ?thesis
  proof cases
    case early
    then show ?thesis by (simp add: covered_empty)
  next
    case loop
    from render_lines_covered [OF covered_empty loop] show ?thesis .
  qed
qed

lemma RenderRight_covered:
  assumes "FC_RenderRight ops cb g font dest x y scale text' = Some (font', dirty, draws)"
  shows "covered dirty draws"
proof -
  let ?seed = "\<lparr>rect_x = x, rect_y = y, rect_w = 0, rect_h = 0\<rparr>"
  consider (early) "draws = []"
    | (loop) f c f1 where
        "render_lines ops cb g (place_right ops scale) f dest x y scale [] c ?seed []
           = Some (f1, dirty, draws)"
    using assms
    by (auto simp: FC_RenderRight_def split: option.splits if_splits)
  then show ?thesis
  proof cases
    case early
    then show ?thesis by (simp add: covered_empty)
  next
    case loop
    from render_lines_covered [OF covered_empty loop] show ?thesis .
  qed
qed

subsection \<open>When drawing returns\<close>

text \<open>
  \<open>levels_ok\<close>: the cache level of every glyph in the map can be read. With it, and a font
  that measuring does not change, the loop of \<^verbatim>\<open>FC_RenderLeft\<close> returns on every text that the
  scan reads.
\<close>

definition levels_ok :: "FC_Font \<Rightarrow> bool" where
  "levels_ok font =
     (case glyphs font of
        None \<Rightarrow> True
      | Some m \<Rightarrow>
          list_all (list_all (\<lambda>node. FC_GetGlyphCacheLevel (Some font) (cache_level (snd node)) \<noteq> None))
            (buckets m))"

lemma chain_find_mem: "chain_find ch k = Some e \<Longrightarrow> (k, e) \<in> set ch"
  by (induction ch) (auto split: if_splits)

lemma levels_ok_found:
  assumes "levels_ok font" and "FC_MapFind (glyphs font) cp = Some (Some e)"
  shows "\<exists>texture. FC_GetGlyphCacheLevel (Some font) (cache_level e) = Some texture"
proof -
  from assms(2) obtain m index where m: "glyphs font = Some m"
    and i: "bucket_index m cp = Some index"
    and f: "chain_find (buckets m ! index) cp = Some e"
    by (auto simp: FC_MapFind_def split: option.splits)
  from i have "index < length (buckets m)"
    by (auto simp: bucket_index_def Let_def split: if_splits)
  then have "buckets m ! index \<in> set (buckets m)"
    by simp
  moreover from assms(1) m
  have "\<forall>ch \<in> set (buckets m). \<forall>node \<in> set ch.
          FC_GetGlyphCacheLevel (Some font) (cache_level (snd node)) \<noteq> None"
    by (simp add: levels_ok_def list_all_iff)
  ultimately have "FC_GetGlyphCacheLevel (Some font) (cache_level (snd (cp, e))) \<noteq> None"
    using chain_find_mem [OF f] by blast
  then show ?thesis
    by auto
qed

lemma render_lookup_total:
  assumes "ttf_source font = None" and "glyph_map_ok font"
  shows "(\<exists>cp'. render_lookup g font cp = Some (font, cp', None))
         \<or> (\<exists>cp' cq e. render_lookup g font cp = Some (font, cp', Some e)
                \<and> FC_MapFind (glyphs font) cq = Some (Some e))"
proof -
  from MapFind_defined [OF assms(2)] obtain r where r: "FC_MapFind (glyphs font) cp = Some r"
    by blast
  from MapFind_defined [OF assms(2)] obtain r' where r': "FC_MapFind (glyphs font) 32 = Some r'"
    by blast
  show ?thesis
  proof (cases r)
    case (Some e)
    with r have "render_lookup g font cp = Some (font, cp, Some e)"
      by (simp add: render_lookup_def GetGlyphData_static [OF assms(1)])
    with r Some show ?thesis by blast
  next
    case None
    show ?thesis
    proof (cases r')
      case (Some e)
      with r r' None have "render_lookup g font cp = Some (font, 32, Some e)"
        by (simp add: render_lookup_def GetGlyphData_static [OF assms(1)])
      with r' Some show ?thesis by blast
    next
      case n: None
      with r r' None have "render_lookup g font cp = Some (font, 32, None)"
        by (simp add: render_lookup_def GetGlyphData_static [OF assms(1)])
      then show ?thesis by blast
    qed
  qed
qed

lemma render_loop_total:
  assumes "ttf_source font = None" and "glyph_map_ok font" and "levels_ok font"
    and "scan_text c = Some ts"
  shows "\<exists>dirty' draws'.
           render_loop ops cb g dest scale nX dH dLS dLt font c destX destY dirty draws
             = Some (font, dirty', draws')"
  using assms(4)
proof (induction "length c" arbitrary: c ts destX destY dirty draws rule: less_induct)
  case less
  from less.prems obtain b where b: "rd c 0 = Some b"
    by (cases "rd c 0") (simp_all add: scan_text_end)
  show ?case
  proof (cases "b = 0")
    case True
    with b show ?thesis
      by (subst render_loop.simps) simp
  next
    case nz: False
    show ?thesis
    proof (cases "b = 10")
      case True
      with less.prems b obtain ts' where "scan_text (drop 1 c) = Some ts'"
        by (auto simp: scan_text_newline)
      from less.hyps [OF rd_Some_nonempty [OF b] this] True nz b show ?thesis
        by (subst render_loop.simps) simp
    next
      case nn: False
      from less.prems scan_text_char [OF b nz nn] obtain cp c' ts' where
        d: "decode_at c 1 = Some (cp, c')" and rest: "scan_text (drop 1 c') = Some ts'"
        by (auto split: option.splits)
      note ih = less.hyps [OF decode_at_shorter [OF d] rest]
      from render_lookup_total [OF assms(1,2), of g cp]
      consider (skip) cp' where "render_lookup g font cp = Some (font, cp', None)"
        | (glyph) cp' cq e where "render_lookup g font cp = Some (font, cp', Some e)"
            "FC_MapFind (glyphs font) cq = Some (Some e)"
        by blast
      then show ?thesis
      proof cases
        case skip
        with ih b nz nn d show ?thesis
          by (subst render_loop.simps) simp
      next
        case glyph
        show ?thesis
        proof (cases "cp' = 32")
          case True
          with glyph ih b nz nn d show ?thesis
            by (subst render_loop.simps) simp
        next
          case False
          from levels_ok_found [OF assms(3) glyph(2)] obtain texture where
            "FC_GetGlyphCacheLevel (Some font) (cache_level e) = Some texture"
            by blast
          with False glyph ih b nz nn d show ?thesis
            by (subst render_loop.simps) (simp add: Let_def)
        qed
      qed
    qed
  qed
qed

lemma RenderLeft_total:
  assumes "ttf_source font = None" and "glyph_map_ok font" and "levels_ok font"
    and "utf8_ok s"
  shows "\<exists>dirty draws.
           FC_RenderLeft ops cb g (Some font) dest x y scale (Some (s @ [0]))
             = Some (Some font, dirty, draws)"
proof -
  from scan_text_total [OF assms(4)] obtain ts where "scan_text (s @ [0]) = Some ts"
    by blast
  from render_loop_total [OF assms(1-3) this] show ?thesis
    unfolding FC_RenderLeft_def Let_def by (simp, metis)
qed

lemma Draw_total:
  assumes "ttf_source font = None" and "glyph_map_ok font" and "levels_ok font"
    and "set_color_for_all_caches font \<noteq> None"
    and "utf8_ok expansion" and "length expansion < nat (fc_buffer_size g)"
  shows "\<exists>dirty draws.
           FC_Draw ops cb g (Some font) dest x y (Some expansion) = Some (Some font, dirty, draws)"
proof -
  from assms(6) have "FC_EXTRACT_VARARGS g expansion = expansion @ [0]"
    by (simp add: FC_EXTRACT_VARARGS_def)
  with RenderLeft_total [OF assms(1-3,5), of ops cb g dest x y "unit_scale ops"] assms(4)
  show ?thesis
    by (auto simp: FC_Draw_def)
qed

subsection \<open>The returned rectangle\<close>

text \<open>
  Claim C6, as amended. \<^verbatim>\<open>FC_Draw\<close> returns, and leaves the font as it was, when the font has
  no TTF source, its glyph map and cache levels are in order and the text is well formed
  and shorter than the buffer. \<^verbatim>\<open>FC_RenderLeft\<close> and \<^verbatim>\<open>FC_Draw\<close> return the rectangle that the
  loop accumulates from \<^verbatim>\<open>{x, y, 0, 0}\<close> over the rectangles the render callback returned, in
  the order of the draws: the accumulated rectangle is replaced by the next one while its
  width or height is 0, and is united with it otherwise. \<^verbatim>\<open>FC_RenderCenter\<close>, \<^verbatim>\<open>FC_RenderRight\<close>
  and \<^verbatim>\<open>FC_DrawAlign\<close> unite the rectangles of their lines with \<^verbatim>\<open>{x, y, 0, 0}\<close>. In each case
  the returned rectangle encloses every rectangle of positive width and height that a
  glyph draw of the call returned.
\<close>

theorem dirty_rect_union:
  "(ttf_source font0 = None \<and> glyph_map_ok font0 \<and> levels_ok font0
      \<and> set_color_for_all_caches font0 \<noteq> None
      \<and> utf8_ok expansion \<and> length expansion < nat (fc_buffer_size g)
      \<longrightarrow> (\<exists>dirty draws. FC_Draw ops cb g (Some font0) dest x y (Some expansion)
                             = Some (Some font0, dirty, draws)))
   \<and> (FC_RenderLeft ops cb g font dest x y scale text' = Some (font', dirty, draws)
      \<longrightarrow> dirty = foldl seed_or_union \<lparr>rect_x = x, rect_y = y, rect_w = 0, rect_h = 0\<rparr> draws
          \<and> (\<forall>R \<in> set draws. has_area R \<longrightarrow> encloses dirty R))
   \<and> (FC_Draw ops cb g font dest x y text' = Some (font', dirty, draws)
      \<longrightarrow> dirty = foldl seed_or_union \<lparr>rect_x = x, rect_y = y, rect_w = 0, rect_h = 0\<rparr> draws
          \<and> (\<forall>R \<in> set draws. has_area R \<longrightarrow> encloses dirty R))
   \<and> (FC_RenderCenter ops cb g font dest x y scale text' = Some (font', dirty, draws)
      \<longrightarrow> (\<forall>R \<in> set draws. has_area R \<longrightarrow> encloses dirty R))
   \<and> (FC_RenderRight ops cb g font dest x y scale text' = Some (font', dirty, draws)
      \<longrightarrow> (\<forall>R \<in> set draws. has_area R \<longrightarrow> encloses dirty R))
   \<and> (FC_DrawAlign ops cb g font dest x y align text' = Some (font', dirty, draws)
      \<longrightarrow> (\<forall>R \<in> set draws. has_area R \<longrightarrow> encloses dirty R))"
proof (intro conjI impI)
  assume "ttf_source font0 = None \<and> glyph_map_ok font0 \<and> levels_ok font0
      \<and> set_color_for_all_caches font0 \<noteq> None
      \<and> utf8_ok expansion \<and> length expansion < nat (fc_buffer_size g)"
  then show "\<exists>dirty draws. FC_Draw ops cb g (Some font0) dest x y (Some expansion)
                             = Some (Some font0, dirty, draws)"
    using Draw_total [of font0 expansion g ops cb dest x y] by blast
next
  assume run: "FC_RenderLeft ops cb g font dest x y scale text' = Some (font', dirty, draws)"
  from RenderLeft_trace [OF run]
  show "dirty = foldl seed_or_union \<lparr>rect_x = x, rect_y = y, rect_w = 0, rect_h = 0\<rparr> draws" .
  from RenderLeft_covered [OF run] show "\<forall>R \<in> set draws. has_area R \<longrightarrow> encloses dirty R"
    by (simp add: covered_def)
next
  assume run: "FC_Draw ops cb g font dest x y text' = Some (font', dirty, draws)"
  then consider (early) "dirty = \<lparr>rect_x = x, rect_y = y, rect_w = 0, rect_h = 0\<rparr>" "draws = []"
    | (left) t where
        "FC_RenderLeft ops cb g font dest x y (unit_scale ops) t = Some (font', dirty, draws)"
    by (auto simp: FC_Draw_def split: option.splits)
  then have "dirty = foldl seed_or_union \<lparr>rect_x = x, rect_y = y, rect_w = 0, rect_h = 0\<rparr> draws
             \<and> covered dirty draws"
  proof cases
    case early
    then show ?thesis by (simp add: covered_empty)
  next
    case left
    from RenderLeft_trace [OF left] RenderLeft_covered [OF left] show ?thesis
      by (rule conjI)
  qed
  then have eq: "dirty = foldl seed_or_union \<lparr>rect_x = x, rect_y = y, rect_w = 0, rect_h = 0\<rparr> draws"
    and cov: "covered dirty draws"
    by (rule conjunct1, rule conjunct2)
  from eq show "dirty = foldl seed_or_union \<lparr>rect_x = x, rect_y = y, rect_w = 0, rect_h = 0\<rparr> draws" .
  from cov show "\<forall>R \<in> set draws. has_area R \<longrightarrow> encloses dirty R"
    unfolding covered_def by (rule conjunct1)
next
  assume "FC_RenderCenter ops cb g font dest x y scale text' = Some (font', dirty, draws)"
  from RenderCenter_covered [OF this] show "\<forall>R \<in> set draws. has_area R \<longrightarrow> encloses dirty R"
    by (simp add: covered_def)
next
  assume "FC_RenderRight ops cb g font dest x y scale text' = Some (font', dirty, draws)"
  from RenderRight_covered [OF this] show "\<forall>R \<in> set draws. has_area R \<longrightarrow> encloses dirty R"
    by (simp add: covered_def)
next
  assume run: "FC_DrawAlign ops cb g font dest x y align text' = Some (font', dirty, draws)"
  then consider (early) "draws = []"
    | (left) t where
        "FC_RenderLeft ops cb g font dest x y (unit_scale ops) t = Some (font', dirty, draws)"
    | (center) t where
        "FC_RenderCenter ops cb g font dest x y (unit_scale ops) t = Some (font', dirty, draws)"
    | (right) t where
        "FC_RenderRight ops cb g font dest x y (unit_scale ops) t = Some (font', dirty, draws)"
    by (auto simp: FC_DrawAlign_def split: option.splits FC_AlignEnum.splits)
  then have "covered dirty draws"
  proof cases
    case early
    then show ?thesis by (simp add: covered_empty)
  next
    case left
    then show ?thesis by (rule RenderLeft_covered)
  next
    case center
    then show ?thesis by (rule RenderCenter_covered)
  next
    case right
    then show ?thesis by (rule RenderRight_covered)
  qed
  then show "\<forall>R \<in> set draws. has_area R \<longrightarrow> encloses dirty R"
    by (simp add: covered_def)
qed

theorem dirty_rect_union_witness:
  "ttf_source abc_font = None \<and> glyph_map_ok abc_font \<and> levels_ok abc_font
   \<and> set_color_for_all_caches abc_font \<noteq> None \<and> utf8_ok [0x61, 0x20, 0x62, 10, 0x63]
   \<and> FC_Draw int_ops (FC_DefaultRenderCallback int_ops) default_globals (Some abc_font) screen 7 9
        (Some [0x61, 0x20, 0x62, 10, 0x63])
     = Some (Some abc_font, \<lparr>rect_x = 7, rect_y = 9, rect_w = 25, rect_h = 40\<rparr>,
             [\<lparr>rect_x = 7, rect_y = 9, rect_w = 10, rect_h = 20\<rparr>,
              \<lparr>rect_x = 22, rect_y = 9, rect_w = 10, rect_h = 20\<rparr>,
              \<lparr>rect_x = 7, rect_y = 29, rect_w = 10, rect_h = 20\<rparr>])
   \<and> encloses \<lparr>rect_x = 7, rect_y = 9, rect_w = 25, rect_h = 40\<rparr>
                \<lparr>rect_x = 7, rect_y = 9, rect_w = 10, rect_h = 20\<rparr>
   \<and> encloses \<lparr>rect_x = 7, rect_y = 9, rect_w = 25, rect_h = 40\<rparr>
                \<lparr>rect_x = 22, rect_y = 9, rect_w = 10, rect_h = 20\<rparr>
   \<and> encloses \<lparr>rect_x = 7, rect_y = 9, rect_w = 25, rect_h = 40\<rparr>
                \<lparr>rect_x = 7, rect_y = 29, rect_w = 10, rect_h = 20\<rparr>
   \<and> map_option snd
       (FC_DrawAlign int_ops (FC_DefaultRenderCallback int_ops) default_globals (Some abc_font) screen
          7 9 FC_ALIGN_RIGHT (Some [0x61, 0x20, 0x62, 10, 0x63]))
       = Some (\<lparr>rect_x = - 18, rect_y = 9, rect_w = 25, rect_h = 40\<rparr>,
               [\<lparr>rect_x = - 18, rect_y = 9, rect_w = 10, rect_h = 20\<rparr>,
                \<lparr>rect_x = - 3, rect_y = 9, rect_w = 10, rect_h = 20\<rparr>,
                \<lparr>rect_x = - 3, rect_y = 29, rect_w = 10, rect_h = 20\<rparr>])
   \<and> encloses \<lparr>rect_x = - 18, rect_y = 9, rect_w = 25, rect_h = 40\<rparr>
                \<lparr>rect_x = - 3, rect_y = 29, rect_w = 10, rect_h = 20\<rparr>"
proof -
  let ?D = "\<lparr>rect_x = 7, rect_y = 9, rect_w = 25, rect_h = 40\<rparr>"
  let ?rs = "[\<lparr>rect_x = 7, rect_y = 9, rect_w = 10, rect_h = 20\<rparr>,
              \<lparr>rect_x = 22, rect_y = 9, rect_w = 10, rect_h = 20\<rparr>,
              \<lparr>rect_x = 7, rect_y = 29, rect_w = 10, rect_h = 20\<rparr>]"
  let ?E = "\<lparr>rect_x = - 18, rect_y = 9, rect_w = 25, rect_h = 40\<rparr>"
  let ?ss = "[\<lparr>rect_x = - 18, rect_y = 9, rect_w = 10, rect_h = 20\<rparr>,
              \<lparr>rect_x = - 3, rect_y = 9, rect_w = 10, rect_h = 20\<rparr>,
              \<lparr>rect_x = - 3, rect_y = 29, rect_w = 10, rect_h = 20\<rparr>]"
  have src: "ttf_source abc_font = None"
    by (simp add: abc_font_def layout_font_def zeroed_font_def)
  have ok: "glyph_map_ok abc_font" "levels_ok abc_font" "set_color_for_all_caches abc_font \<noteq> None"
    "utf8_ok [0x61, 0x20, 0x62, 10, 0x63]"
    by code_simp+
  have short: "length [0x61, 0x20, 0x62, 10, 0x63 :: byte] < nat (fc_buffer_size default_globals)"
    by code_simp
  from dirty_rect_union [THEN conjunct1, THEN mp, of abc_font "[0x61, 0x20, 0x62, 10, 0x63]"
      default_globals int_ops "FC_DefaultRenderCallback int_ops" screen 7 9] src ok short
  obtain dirty draws where run:
    "FC_Draw int_ops (FC_DefaultRenderCallback int_ops) default_globals (Some abc_font) screen 7 9
        (Some [0x61, 0x20, 0x62, 10, 0x63]) = Some (Some abc_font, dirty, draws)"
    by blast
  have draw: "map_option snd
     (FC_Draw int_ops (FC_DefaultRenderCallback int_ops) default_globals (Some abc_font) screen 7 9
        (Some [0x61, 0x20, 0x62, 10, 0x63])) = Some (?D, ?rs)"
    by code_simp
  with run have res: "dirty = ?D" "draws = ?rs"
    by simp_all
  from dirty_rect_union [THEN conjunct2, THEN conjunct2, THEN conjunct1, THEN mp, OF run]
  have "\<forall>R \<in> set draws. has_area R \<longrightarrow> encloses dirty R"
    by (rule conjunct2)
  with res have a: "\<forall>R \<in> set ?rs. has_area R \<longrightarrow> encloses ?D R"
    by simp
  have align: "map_option snd
       (FC_DrawAlign int_ops (FC_DefaultRenderCallback int_ops) default_globals (Some abc_font) screen
          7 9 FC_ALIGN_RIGHT (Some [0x61, 0x20, 0x62, 10, 0x63])) = Some (?E, ?ss)"
    by code_simp
  then obtain font2 where
    "FC_DrawAlign int_ops (FC_DefaultRenderCallback int_ops) default_globals (Some abc_font) screen
          7 9 FC_ALIGN_RIGHT (Some [0x61, 0x20, 0x62, 10, 0x63]) = Some (font2, ?E, ?ss)"
    by auto
  from dirty_rect_union [THEN conjunct2, THEN conjunct2, THEN conjunct2, THEN conjunct2,
      THEN conjunct2, THEN mp, OF this]
  have b: "\<forall>R \<in> set ?ss. has_area R \<longrightarrow> encloses ?E R" .
  from a b src ok run res align show ?thesis
    by (simp add: has_area_def)
qed

text \<open>
  The claim as stated fails for the column draws, which return the column and the height of
  its lines and not a union: \<^verbatim>\<open>FC_DrawColumn\<close> of \<^verbatim>\<open>"abc"\<close> at width 5 draws three glyphs of width
  10 side by side and returns \<^verbatim>\<open>{0, 0, 5, 20}\<close>, which does not enclose the third.
\<close>

theorem draw_column_box_counterexample:
  "map_option snd
     (FC_DrawColumn int_ops (FC_DefaultRenderCallback int_ops) default_globals (Some abc_font) screen
        0 0 5 (Some [0x61, 0x62, 0x63]))
     = Some (\<lparr>rect_x = 0, rect_y = 0, rect_w = 5, rect_h = 20\<rparr>,
             [\<lparr>rect_x = 0, rect_y = 0, rect_w = 10, rect_h = 20\<rparr>,
              \<lparr>rect_x = 10, rect_y = 0, rect_w = 10, rect_h = 20\<rparr>,
              \<lparr>rect_x = 20, rect_y = 0, rect_w = 10, rect_h = 20\<rparr>])
   \<and> has_area \<lparr>rect_x = 20, rect_y = 0, rect_w = 10, rect_h = 20\<rparr>
   \<and> encloses \<lparr>rect_x = 0, rect_y = 0, rect_w = 5, rect_h = 20\<rparr>
                \<lparr>rect_x = 20, rect_y = 0, rect_w = 10, rect_h = 20\<rparr> = False"
  by code_simp

subsection \<open>Null fonts, null texts and columns of width 0\<close>

text \<open>
  Claim C7, as amended. On a null font or a null text the draws return \<^verbatim>\<open>{x, y, 0, 0}\<close> and draw
  nothing, and \<^verbatim>\<open>FC_GetWidth\<close> returns 0. \<^verbatim>\<open>FC_GetColumnHeight\<close> returns 0 on a null font; on a
  font that is not null it returns the height of the font, as \<^verbatim>\<open>Uint16\<close>, when the text is
  null or the width is 0.
\<close>

theorem invalid_input_results:
  "FC_Draw ops cb g None dest x y formatted_text
     = Some (None, \<lparr>rect_x = x, rect_y = y, rect_w = 0, rect_h = 0\<rparr>, [])
   \<and> FC_Draw ops cb g font' dest x y None
     = Some (font', \<lparr>rect_x = x, rect_y = y, rect_w = 0, rect_h = 0\<rparr>, [])
   \<and> FC_DrawAlign ops cb g None dest x y align formatted_text
     = Some (None, \<lparr>rect_x = x, rect_y = y, rect_w = 0, rect_h = 0\<rparr>, [])
   \<and> FC_DrawAlign ops cb g font' dest x y align None
     = Some (font', \<lparr>rect_x = x, rect_y = y, rect_w = 0, rect_h = 0\<rparr>, [])
   \<and> FC_DrawColumn ops cb g None dest x y width formatted_text
     = Some (None, \<lparr>rect_x = x, rect_y = y, rect_w = 0, rect_h = 0\<rparr>, [])
   \<and> FC_DrawColumn ops cb g font' dest x y width None
     = Some (font', \<lparr>rect_x = x, rect_y = y, rect_w = 0, rect_h = 0\<rparr>, [])
   \<and> FC_GetWidth g None formatted_text = Some (None, 0)
   \<and> FC_GetWidth g font' None = Some (font', 0)
   \<and> FC_GetColumnHeight g None width formatted_text = Some (None, 0)
   \<and> FC_GetColumnHeight g (Some font) width None = Some (Some font, u16 (height font))
   \<and> FC_GetColumnHeight g (Some font) 0 formatted_text = Some (Some font, u16 (height font))"
  by (simp add: FC_Draw_def FC_DrawAlign_def FC_DrawColumn_def FC_GetWidth_def FC_GetColumnHeight_def
        u16_def split: option.splits)

text \<open>
  The claim as stated fails: at width 0, and on a null text, \<^verbatim>\<open>FC_GetColumnHeight\<close> returns
  the height of the font, 20 here, and not an empty or zero result.
\<close>

theorem invalid_input_counterexample:
  "height abc_font = 20
   \<and> map_option snd (FC_GetColumnHeight default_globals (Some abc_font) 0 (Some [0x61])) = Some 20
   \<and> map_option snd (FC_GetColumnHeight default_globals (Some abc_font) 25 None) = Some 20"
  by code_simp

end
